theory Spec2Isabelle
  imports Complex_Main "HOL-Library.AList"
begin

section \<open>Python values, exceptions and dictionaries\<close>

text \<open>
  The coordinator of \<^verbatim>\<open>custom_components/bwthaf/coordinator.py\<close> is embedded as pure
  functions. An exception is a value: its class and its \<^verbatim>\<open>str()\<close>. A raising
  computation returns \<open>Inl\<close> of the exception, a returning one \<open>Inr\<close> of its result.
\<close>

datatype exn_class =
  UpdateFailed | ValueError | TypeError | AttributeError | KeyError | IndexError | OtherError

datatype exn = Exn exn_class string

fun cls_of :: "exn \<Rightarrow> exn_class" where
  "cls_of (Exn c m) = c"

fun str_of :: "exn \<Rightarrow> string" where
  "str_of (Exn c m) = m"

text \<open>
  What \<^verbatim>\<open>json.loads\<close> and \<^verbatim>\<open>response.json()\<close> return. A \<open>JObj\<close> lists the
  entries of a Python dict in insertion order. A float is the rational it denotes.
\<close>

datatype json =
  JNull | JBool bool | JInt int | JFloat rat | JStr string
  | JList "json list" | JObj "(string \<times> json) list"

text \<open>A naive or timezone-aware \<^verbatim>\<open>datetime\<close>: year, month, day, hour, minute, second, microsecond.\<close>

datatype datetime = Datetime int int int int int int int

text \<open>
  A snapshot value is what the extractors store: a value taken from JSON (\<open>J JNull\<close> is
  Python's \<^verbatim>\<open>None\<close>) or a UTC instant.
\<close>

datatype val = J json | Time datetime

text \<open>
  A Python dict with string keys, in insertion order. \<^verbatim>\<open>d[k] = v\<close> is
  \<^const>\<open>AList.update\<close>: the value is replaced in place when the key is there, and
  appended otherwise. \<^verbatim>\<open>d.update(u)\<close> stores the entries of \<open>u\<close> in order.
\<close>

type_synonym snapshot = "(string \<times> val) list"

definition dict_update :: "snapshot \<Rightarrow> snapshot \<Rightarrow> snapshot" where
  "dict_update d u = foldl (\<lambda>acc kv. AList.update (fst kv) (snd kv) acc) d u"

text \<open>Python truthiness of a JSON value (\<^verbatim>\<open>if v:\<close>).\<close>

fun truthy :: "json \<Rightarrow> bool" where
  "truthy JNull = False"
| "truthy (JBool b) = b"
| "truthy (JInt i) = (i \<noteq> 0)"
| "truthy (JFloat q) = (q \<noteq> 0)"
| "truthy (JStr s) = (s \<noteq> [])"
| "truthy (JList xs) = (xs \<noteq> [])"
| "truthy (JObj kvs) = (kvs \<noteq> [])"

text \<open>\<^verbatim>\<open>d.get(k, default)\<close>: only a dict has the method.\<close>

fun py_get :: "json \<Rightarrow> string \<Rightarrow> json \<Rightarrow> exn + json" where
  "py_get (JObj kvs) k dflt = Inr (case map_of kvs k of Some v \<Rightarrow> v | None \<Rightarrow> dflt)"
| "py_get v k dflt = Inl (Exn AttributeError ''object has no attribute get'')"

text \<open>\<^verbatim>\<open>sub in s\<close> on strings.\<close>

fun contains :: "string \<Rightarrow> string \<Rightarrow> bool" where
  "contains sub [] = (sub = [])"
| "contains sub (c # cs) = (take (length sub) (c # cs) = sub \<or> contains sub cs)"

section \<open>The rollover-aware counter\<close>

text \<open>
  Lines 92 to 102 of \<^verbatim>\<open>_async_update_data\<close>, for a cumulative value \<open>current\<close>
  and the stored \<^verbatim>\<open>_last_water_consumption\<close>:
  \<^verbatim>\<open>
  if self._last_water_consumption > 0:
      if current < self._last_water_consumption:
          data["water_increment"] = current
      else:
          data["water_increment"] = current - self._last_water_consumption
  else:
      data["water_increment"] = 0
  self._last_water_consumption = current
  \<close>
  The result is the increment and the new stored value.
\<close>

definition compute_increment :: "int \<Rightarrow> int \<Rightarrow> int \<times> int" where
  "compute_increment prev current =
     ((if prev > 0 then (if current < prev then current else current - prev) else 0),
      current)"

text \<open>
  The increments of a sequence of cumulative values, from a stored value \<open>prev\<close>. The
  coordinator is constructed with \<^verbatim>\<open>self._last_water_consumption = 0\<close>.
\<close>

fun increments :: "int \<Rightarrow> int list \<Rightarrow> int list" where
  "increments prev [] = []"
| "increments prev (v # vs) =
     fst (compute_increment prev v) # increments (snd (compute_increment prev v)) vs"

fun final_baseline :: "int \<Rightarrow> int list \<Rightarrow> int" where
  "final_baseline prev [] = prev"
| "final_baseline prev (v # vs) = final_baseline (snd (compute_increment prev v)) vs"

definition initial_last_water_consumption :: int where
  "initial_last_water_consumption = 0"

section \<open>Library functions and the network\<close>

text \<open>Sequencing of computations that may raise: the first exception ends the sequence.\<close>

definition and_then :: "exn + 'a \<Rightarrow> ('a \<Rightarrow> exn + 'b) \<Rightarrow> exn + 'b" where
  "and_then r f = (case r of Inl e \<Rightarrow> Inl e | Inr x \<Rightarrow> f x)"

text \<open>
  The functions of Python's standard library, of \<^verbatim>\<open>bs4\<close> and of Home Assistant that the
  coordinator calls are parameters of the model:
  \<^item> \<open>strptime s fmt\<close> is \<^verbatim>\<open>datetime.strptime(s, fmt)\<close> on a string; it raises
    \<open>ValueError\<close> when \<open>s\<close> does not match \<open>fmt\<close>;
  \<^item> \<open>as_utc\<close> is \<^verbatim>\<open>dt_util.as_utc\<close>;
  \<^item> \<open>json_loads\<close> is \<^verbatim>\<open>json.loads\<close>, \<open>unescape\<close> is \<^verbatim>\<open>html.unescape\<close>;
  \<^item> \<open>int_of_str\<close> is \<^verbatim>\<open>int(s)\<close> on a string;
  \<^item> \<open>re_compile p\<close> is \<^verbatim>\<open>re.compile(p)\<close>, giving the predicate "the pattern is
    found in the text".
\<close>

record pylib =
  strptime :: "string \<Rightarrow> string \<Rightarrow> exn + datetime"
  as_utc :: "datetime \<Rightarrow> exn + datetime"
  json_loads :: "string \<Rightarrow> exn + json"
  unescape :: "string \<Rightarrow> string"
  int_of_str :: "string \<Rightarrow> exn + int"
  re_compile :: "string \<Rightarrow> exn + (string \<Rightarrow> bool)"

text \<open>An element found by BeautifulSoup: its attributes. \<open>tag_get\<close> is \<^verbatim>\<open>tag.get(name, default)\<close>.\<close>

type_synonym tag = "(string \<times> string) list"

definition tag_get :: "tag \<Rightarrow> string \<Rightarrow> string \<Rightarrow> string" where
  "tag_get t name dflt = (case map_of t name of Some v \<Rightarrow> v | None \<Rightarrow> dflt)"

text \<open>
  An anchor of the dashboard whose \<^verbatim>\<open>href\<close> matches \<^verbatim>\<open>/device\?receiptLineKey=\<close>:
  the strings of the spans of its \<^verbatim>\<open>div.informations\<close> (\<open>None\<close> when it has no such div)
  and its \<^verbatim>\<open>href\<close>.
\<close>

record link =
  info_spans :: "string list option"
  href :: string

record response =
  status_code :: int
  body_json :: "exn + json"

text \<open>
  What the vendor's site answers during one cycle, and the two readings of
  \<^verbatim>\<open>self.hass.loop.time()\<close>: each request raises or returns. The pages are given as
  what BeautifulSoup finds in them: the anchors of the dashboard, the
  \<^verbatim>\<open>div[data-controller=live]\<close> of the device page, the \<^verbatim>\<open>div#graph_device\<close> of the
  fragment returned for a payload.
\<close>

record env =
  post_login :: "exn + int"
  get_dashboard :: "exn + link list"
  get_summary :: "string \<Rightarrow> exn + response"
  get_device :: "string \<Rightarrow> exn + tag option"
  post_load_conso :: "json \<Rightarrow> exn + tag option"
  loop_time_check :: real
  loop_time_main :: real

text \<open>
  The configuration entry. \<^verbatim>\<open>DEFAULT_INTERVAL_MAIN\<close> is a constant of \<^verbatim>\<open>const.py\<close>,
  taken as a parameter.
\<close>

record config =
  serial_number :: string
  options_interval_main :: "int option"
  data_interval_main :: "int option"
  DEFAULT_INTERVAL_MAIN :: int

text \<open>The coordinator's attributes; \<open>data\<close> and \<open>last_update_success\<close> are set by the host.\<close>

record coordinator =
  receipt_line_key :: "string option"
  last_main_update :: real
  last_water_consumption :: int
  data :: "snapshot option"
  last_update_success :: bool

definition init_coordinator :: coordinator where
  "init_coordinator =
     \<lparr>receipt_line_key = None, last_main_update = 0,
      last_water_consumption = initial_last_water_consumption,
      data = None, last_update_success = True\<rparr>"

text \<open>\<^verbatim>\<open>f"{self.receipt_line_key}"\<close>\<close>

definition key_str :: "string option \<Rightarrow> string" where
  "key_str k = (case k of Some s \<Rightarrow> s | None \<Rightarrow> ''None'')"

section \<open>Authentication\<close>

text \<open>
  \<^verbatim>\<open>re.search(r'receiptLineKey=([^&]+)', href)\<close>: the leftmost place where the literal is
  followed by at least one character other than \<^verbatim>\<open>&\<close>; the group is the longest such run.
\<close>

fun receipt_key_of :: "string \<Rightarrow> string option" where
  "receipt_key_of [] = None"
| "receipt_key_of (c # cs) =
     (let grp = takeWhile (\<lambda>x. x \<noteq> CHR ''&'') (drop 15 (c # cs))
      in if take 15 (c # cs) = ''receiptLineKey='' \<and> grp \<noteq> [] then Some grp
         else receipt_key_of cs)"

fun find_key :: "(string \<Rightarrow> bool) \<Rightarrow> link list \<Rightarrow> string option" where
  "find_key m [] = None"
| "find_key m (l # ls) =
     (case info_spans l of
        None \<Rightarrow> find_key m ls
      | Some spans \<Rightarrow>
          if list_ex m spans then
            (case receipt_key_of (href l) of Some k \<Rightarrow> Some k | None \<Rightarrow> find_key m ls)
          else find_key m ls)"

text \<open>
  The pattern is compiled inside the loop, at each anchor that has an information div;
  an invalid pattern raises at the first of them.
\<close>

definition authenticate :: "config \<Rightarrow> pylib \<Rightarrow> env \<Rightarrow> exn + string" where
  "authenticate cfg L E =
     and_then (post_login E) (\<lambda>status.
       if status \<noteq> 200 then Inl (Exn UpdateFailed ''Authentication failed'')
       else and_then (get_dashboard E) (\<lambda>links.
         and_then (if list_ex (\<lambda>l. info_spans l \<noteq> None) links
                   then re_compile L (serial_number cfg) else Inr (\<lambda>t. False)) (\<lambda>m.
           case find_key m links of
             Some k \<Rightarrow> Inr k
           | None \<Rightarrow> Inl (Exn UpdateFailed
                 (''Serial number '' @ serial_number cfg @ '' not found in dashboard'')))))"

section \<open>The main-data extractor\<close>

text \<open>The Canonical Field Catalog: \<^verbatim>\<open>code_mapping\<close> of \<^verbatim>\<open>_get_main_data\<close>.\<close>

definition code_mapping :: "(string \<times> string) list" where
  "code_mapping =
     [(''resinVol'', ''resin_vol''),
      (''inHardness'', ''in_hardness''),
      (''outHardness'', ''out_hardness''),
      (''pressure'', ''pressure''),
      (''salt'', ''salt''),
      (''volOK'', ''vol_ok''),
      (''rssiLevel'', ''wifi_signal'')]"

text \<open>\<^verbatim>\<open>d.items()\<close>: only a dict has the method.\<close>

fun py_items :: "json \<Rightarrow> exn + (string \<times> json) list" where
  "py_items (JObj kvs) = Inr kvs"
| "py_items v = Inl (Exn AttributeError ''object has no attribute items'')"

text \<open>
  The body of the inner loop, lines 196 to 204. \<^verbatim>\<open>code in code_mapping\<close> hashes the
  code: a list or a dict raises \<open>TypeError\<close>, any other value that is not a string of
  the catalog is not a key.
\<close>

definition main_item :: "snapshot \<Rightarrow> json \<Rightarrow> exn + snapshot" where
  "main_item result item =
     and_then (py_get item ''code'' JNull) (\<lambda>code.
     and_then (py_get item ''value'' JNull) (\<lambda>value.
       if truthy code \<and> value \<noteq> JNull then
         (case code of
            JStr c \<Rightarrow>
              (case map_of code_mapping c of
                 Some mapped_key \<Rightarrow> Inr (AList.update mapped_key (J value) result)
               | None \<Rightarrow> Inr result)
          | JList xs \<Rightarrow> Inl (Exn TypeError ''unhashable type: list'')
          | JObj kvs \<Rightarrow> Inl (Exn TypeError ''unhashable type: dict'')
          | _ \<Rightarrow> Inr result)
       else Inr result))"

fun main_category :: "snapshot \<Rightarrow> json list \<Rightarrow> exn + snapshot" where
  "main_category result [] = Inr result"
| "main_category result (item # items) =
     and_then (main_item result item) (\<lambda>result'. main_category result' items)"

text \<open>The outer loop: a category that is not a list is skipped.\<close>

fun main_categories :: "snapshot \<Rightarrow> (string \<times> json) list \<Rightarrow> exn + snapshot" where
  "main_categories result [] = Inr result"
| "main_categories result ((category_name, JList items) # cs) =
     and_then (main_category result items) (\<lambda>result'. main_categories result' cs)"
| "main_categories result ((category_name, category_data) # cs) = main_categories result cs"

definition get_main_data :: "env \<Rightarrow> string option \<Rightarrow> exn + snapshot" where
  "get_main_data E key =
     and_then (get_summary E (key_str key)) (\<lambda>resp.
       if status_code resp \<noteq> 200 then Inl (Exn UpdateFailed ''Failed to fetch main data'')
       else
         and_then (body_json resp) (\<lambda>dat.
         and_then (py_get dat ''online'' (JBool False)) (\<lambda>online.
         and_then (py_get dat ''data'' (JObj [])) (\<lambda>d1.
         and_then (py_get d1 ''standBy'' (JBool False)) (\<lambda>standby.
         and_then (py_get dat ''data'' (JObj [])) (\<lambda>d2.
         and_then (py_get d2 ''salt'' JNull) (\<lambda>salt.
         and_then (py_get dat ''dataCategories'' (JObj [])) (\<lambda>categories.
         and_then (py_items categories) (\<lambda>cats.
           main_categories
             [(''online'', J online), (''standby'', J standby), (''salt'', J salt)] cats)))))))))"

section \<open>The consumption extractor\<close>

text \<open>\<^verbatim>\<open>int(v)\<close> on a JSON value; a float is truncated towards zero.\<close>

fun py_int :: "pylib \<Rightarrow> json \<Rightarrow> exn + int" where
  "py_int L (JBool b) = Inr (if b then 1 else 0)"
| "py_int L (JInt i) = Inr i"
| "py_int L (JFloat q) = Inr (if q \<ge> 0 then \<lfloor>q\<rfloor> else \<lceil>q\<rceil>)"
| "py_int L (JStr s) = int_of_str L s"
| "py_int L v = Inl (Exn TypeError ''int() argument must be a string or a number'')"

text \<open>\<^verbatim>\<open>len(v)\<close> and \<^verbatim>\<open>v[i]\<close> for an index \<open>i \<ge> 0\<close>; a character of a string is a string.\<close>

fun py_len :: "json \<Rightarrow> exn + nat" where
  "py_len (JList xs) = Inr (length xs)"
| "py_len (JStr s) = Inr (length s)"
| "py_len (JObj kvs) = Inr (length kvs)"
| "py_len v = Inl (Exn TypeError ''object has no len()'')"

fun py_index :: "json \<Rightarrow> nat \<Rightarrow> exn + json" where
  "py_index (JList xs) i =
     (if i < length xs then Inr (xs ! i) else Inl (Exn IndexError ''list index out of range''))"
| "py_index (JStr s) i =
     (if i < length s then Inr (JStr [s ! i]) else Inl (Exn IndexError ''string index out of range''))"
| "py_index (JObj kvs) i = Inl (Exn KeyError ''0'')"
| "py_index v i = Inl (Exn TypeError ''object is not subscriptable'')"

text \<open>\<^verbatim>\<open>v if isinstance(v, bool) else False\<close>\<close>

fun bool_or_false :: "json \<Rightarrow> json" where
  "bool_or_false (JBool b) = JBool b"
| "bool_or_false v = JBool False"

text \<open>
  \<^verbatim>\<open>dt_util.as_utc(datetime.strptime(v, fmt))\<close>; \<^verbatim>\<open>strptime\<close> raises \<open>TypeError\<close> on a
  value that is not a string.
\<close>

definition parse_date :: "pylib \<Rightarrow> json \<Rightarrow> string \<Rightarrow> exn + datetime" where
  "parse_date L v fmt =
     (case v of
        JStr s \<Rightarrow> and_then (strptime L s fmt) (as_utc L)
      | _ \<Rightarrow> Inl (Exn TypeError ''strptime() argument 1 must be str''))"

definition refresh_formats :: "string list" where
  "refresh_formats =
     [''%Y-%m-%dT%H:%M:%S.%f'', ''%Y-%m-%d %H:%M:%S'', ''%Y-%m-%dT%H:%M:%S'', ''%Y-%m-%d'']"

text \<open>
  The \<^verbatim>\<open>for fmt in [...]\<close> loop of lines 258 to 267: \<open>Inr (Some t)\<close> is the
  \<^verbatim>\<open>break\<close> with a parsed instant, \<open>Inr None\<close> the \<^verbatim>\<open>else\<close> branch of the loop, and
  \<open>Inl e\<close> an exception other than \<open>ValueError\<close>, which leaves the loop.
\<close>

fun refresh_loop :: "pylib \<Rightarrow> json \<Rightarrow> string list \<Rightarrow> exn + datetime option" where
  "refresh_loop L v [] = Inr None"
| "refresh_loop L v (fmt # fmts) =
     (case parse_date L v fmt of
        Inr t \<Rightarrow> Inr (Some t)
      | Inl e \<Rightarrow> if cls_of e = ValueError then refresh_loop L v fmts else Inl e)"

text \<open>The value stored under \<^verbatim>\<open>refresh_date\<close>: the outer \<^verbatim>\<open>except Exception\<close> stores \<^verbatim>\<open>None\<close>.\<close>

definition refresh_date_value :: "pylib \<Rightarrow> json \<Rightarrow> val" where
  "refresh_date_value L v =
     (case refresh_loop L v refresh_formats of
        Inr (Some t) \<Rightarrow> Time t
      | Inr None \<Rightarrow> J JNull
      | Inl e \<Rightarrow> J JNull)"

definition parse_refresh_date :: "pylib \<Rightarrow> json \<Rightarrow> snapshot \<Rightarrow> exn + snapshot" where
  "parse_refresh_date L dataset_json result =
     and_then (py_get dataset_json ''refreshDate'' JNull) (\<lambda>refresh_date_str.
       if truthy refresh_date_str
       then Inr (AList.update ''refresh_date'' (refresh_date_value L refresh_date_str) result)
       else Inr result)"

text \<open>Lines 277 to 290, for a first line of at least 5 positions.\<close>

definition parse_first_line :: "pylib \<Rightarrow> int \<Rightarrow> json \<Rightarrow> snapshot \<Rightarrow> exn + snapshot" where
  "parse_first_line L salt_per_regen first_line result =
     and_then (py_index first_line 0) (\<lambda>last_date.
     and_then (py_index first_line 1) (\<lambda>x1.
     and_then (if truthy x1 then py_int L x1 else Inr 0) (\<lambda>regen_count.
     and_then (py_index first_line 2) (\<lambda>x2.
     and_then (py_index first_line 3) (\<lambda>x3.
     and_then (if truthy x3 then py_int L x3 else Inr 0) (\<lambda>water_consumption.
     and_then (py_index first_line 4) (\<lambda>x4.
       Inr (dict_update result
         [(''last_date'', J last_date),
          (''regen_count'', J (JInt regen_count)),
          (''power_outage'', J (bool_or_false x2)),
          (''water_consumption'', J (JInt water_consumption)),
          (''salt_alarm'', J (bool_or_false x4)),
          (''salt_consumption'', J (JInt (regen_count * salt_per_regen))),
          (''last_update'',
             (case parse_date L last_date ''%Y-%m-%d'' of
                Inr t \<Rightarrow> Time t | Inl e \<Rightarrow> J JNull))]))))))))"

definition parse_lines :: "pylib \<Rightarrow> int \<Rightarrow> json \<Rightarrow> snapshot \<Rightarrow> exn + snapshot" where
  "parse_lines L salt_per_regen dataset_json result =
     and_then (py_get dataset_json ''lines'' (JList [])) (\<lambda>lines.
       if truthy lines then
         and_then (py_index lines 0) (\<lambda>first_line.
         and_then (py_len first_line) (\<lambda>n.
           if n \<ge> 5 then parse_first_line L salt_per_regen first_line result
           else Inr result))
       else Inr result)"

definition get_consumption_data :: "pylib \<Rightarrow> env \<Rightarrow> string option \<Rightarrow> exn + snapshot" where
  "get_consumption_data L E key =
     and_then (get_device E (key_str key)) (\<lambda>live_div.
       case live_div of
         None \<Rightarrow> Inl (Exn UpdateFailed ''Live div not found'')
       | Some live \<Rightarrow>
           and_then (json_loads L (unescape L (tag_get live ''data-live-props-value'' []))) (\<lambda>props.
           and_then (post_load_conso E
               (JObj [(''props'', props), (''updated'', JObj []), (''args'', JObj [])])) (\<lambda>graph_div.
             case graph_div of
               None \<Rightarrow> Inr []
             | Some graph \<Rightarrow>
                 and_then (json_loads L
                     (unescape L (tag_get graph ''data-chart-dataset-value'' ''{}''))) (\<lambda>dataset_json.
                 and_then (int_of_str L (tag_get graph ''data-chart-salt-value'' ''0'')) (\<lambda>salt_per_regen.
                 and_then (parse_refresh_date L dataset_json
                     [(''salt_per_regen'', J (JInt salt_per_regen))]) (\<lambda>result.
                   parse_lines L salt_per_regen dataset_json result))))))"

section \<open>The poll orchestrator\<close>

text \<open>Lines 59 to 61: \<^verbatim>\<open>if not self.receipt_line_key\<close> holds for \<^verbatim>\<open>None\<close> and for the empty string.\<close>

definition needs_auth :: "coordinator \<Rightarrow> bool" where
  "needs_auth s = (receipt_line_key s = None \<or> receipt_line_key s = Some [])"

definition ensure_auth :: "config \<Rightarrow> pylib \<Rightarrow> env \<Rightarrow> coordinator \<Rightarrow> exn + coordinator" where
  "ensure_auth cfg L E s =
     (if needs_auth s then
        and_then (authenticate cfg L E) (\<lambda>k. Inr (s\<lparr>receipt_line_key := Some k\<rparr>))
      else Inr s)"

text \<open>Line 64: \<^verbatim>\<open>dict(self.data) if self.data else {}\<close>\<close>

definition existing_data :: "coordinator \<Rightarrow> snapshot" where
  "existing_data s = (case data s of None \<Rightarrow> [] | Some d \<Rightarrow> d)"

text \<open>Lines 67 to 70.\<close>

definition interval_main :: "config \<Rightarrow> int" where
  "interval_main cfg =
     (case options_interval_main cfg of
        Some i \<Rightarrow> i
      | None \<Rightarrow> (case data_interval_main cfg of Some i \<Rightarrow> i | None \<Rightarrow> DEFAULT_INTERVAL_MAIN cfg))"

definition main_due :: "config \<Rightarrow> env \<Rightarrow> coordinator \<Rightarrow> bool" where
  "main_due cfg E s = (loop_time_check E - last_main_update s > of_int (interval_main cfg))"

text \<open>Lines 72 to 80: the main fetch, when due; its exception is logged and dropped.\<close>

definition main_step :: "config \<Rightarrow> env \<Rightarrow> coordinator \<Rightarrow> snapshot \<Rightarrow> coordinator \<times> snapshot" where
  "main_step cfg E s d =
     (if main_due cfg E s then
        (case get_main_data E (receipt_line_key s) of
           Inr main_data \<Rightarrow> (s\<lparr>last_main_update := loop_time_main E\<rparr>, dict_update d main_data)
         | Inl err \<Rightarrow> (s, d))
      else (s, d))"

text \<open>Lines 83 to 89: the consumption fetch; its exception is logged and dropped.\<close>

definition consumption_step :: "pylib \<Rightarrow> env \<Rightarrow> coordinator \<Rightarrow> snapshot \<Rightarrow> snapshot" where
  "consumption_step L E s d =
     (case get_consumption_data L E (receipt_line_key s) of
        Inr consumption_data \<Rightarrow> dict_update d consumption_data
      | Inl err \<Rightarrow> d)"

text \<open>
  Lines 92 to 102. The only writer of \<^verbatim>\<open>water_consumption\<close> is the consumption
  extractor, which stores an \<^verbatim>\<open>int\<close>, and the counter is modelled on integers; any
  other value under the key is a \<open>TypeError\<close> here.
\<close>

definition increment_step :: "coordinator \<Rightarrow> snapshot \<Rightarrow> exn + coordinator \<times> snapshot" where
  "increment_step s d =
     (case map_of d ''water_consumption'' of
        None \<Rightarrow> Inr (s, d)
      | Some (J (JInt current)) \<Rightarrow>
          Inr (s\<lparr>last_water_consumption := snd (compute_increment (last_water_consumption s) current)\<rparr>,
               AList.update ''water_increment''
                 (J (JInt (fst (compute_increment (last_water_consumption s) current)))) d)
      | Some v \<Rightarrow> Inl (Exn TypeError ''unsupported operand type''))"

text \<open>Lines 105 to 108.\<close>

definition insufficient :: exn where
  "insufficient = Exn UpdateFailed ''Insufficient data received''"

definition sufficiency :: "snapshot \<Rightarrow> exn + snapshot" where
  "sufficiency d = (if d = [] \<or> length d < 3 then Inl insufficient else Inr d)"

text \<open>
  The snapshot after the two fetches (lines 64 to 89), with the coordinator after them.
\<close>

definition merge_fetches ::
  "config \<Rightarrow> pylib \<Rightarrow> env \<Rightarrow> coordinator \<Rightarrow> coordinator \<times> snapshot" where
  "merge_fetches cfg L E s =
     (case main_step cfg E s (existing_data s) of
        (s', d) \<Rightarrow> (s', consumption_step L E s' d))"

text \<open>
  The \<^verbatim>\<open>try\<close> block of \<^verbatim>\<open>_async_update_data\<close>: the coordinator as the block leaves
  it, and the returned snapshot or the exception that surfaces.
\<close>

definition update_body ::
  "config \<Rightarrow> pylib \<Rightarrow> env \<Rightarrow> coordinator \<Rightarrow> coordinator \<times> (exn + snapshot)" where
  "update_body cfg L E s =
     (case ensure_auth cfg L E s of
        Inl err \<Rightarrow> (s, Inl err)
      | Inr s1 \<Rightarrow>
          (case merge_fetches cfg L E s1 of
             (s2, d2) \<Rightarrow>
               (case increment_step s2 d2 of
                  Inl err \<Rightarrow> (s2, Inl err)
                | Inr (s3, d3) \<Rightarrow> (s3, sufficiency d3))))"

text \<open>Lines 110 to 115: the handler of the \<^verbatim>\<open>try\<close> block.\<close>

definition auth_marker :: "exn \<Rightarrow> bool" where
  "auth_marker err = (contains ''401'' (str_of err) \<or> contains ''403'' (str_of err))"

definition wrap_error :: "exn \<Rightarrow> exn" where
  "wrap_error err = Exn UpdateFailed (''Error communicating with API: '' @ str_of err)"

definition async_update_data ::
  "config \<Rightarrow> pylib \<Rightarrow> env \<Rightarrow> coordinator \<Rightarrow> coordinator \<times> (exn + snapshot)" where
  "async_update_data cfg L E s =
     (case update_body cfg L E s of
        (s', Inr d) \<Rightarrow> (s', Inr d)
      | (s', Inl err) \<Rightarrow>
          ((if auth_marker err then s'\<lparr>receipt_line_key := None\<rparr> else s'), Inl (wrap_error err)))"

text \<open>
  The host (Home Assistant's \<^verbatim>\<open>DataUpdateCoordinator\<close>) publishes the returned snapshot
  as \<^verbatim>\<open>coordinator.data\<close> and records whether the cycle succeeded; a failed cycle
  leaves \<^verbatim>\<open>data\<close> as it was. \<open>available\<close> is the property of
  \<^verbatim>\<open>binary_sensor.py\<close>.
\<close>

definition refresh :: "config \<Rightarrow> pylib \<Rightarrow> env \<Rightarrow> coordinator \<Rightarrow> coordinator" where
  "refresh cfg L E s =
     (case async_update_data cfg L E s of
        (s', Inr d) \<Rightarrow> s'\<lparr>data := Some d, last_update_success := True\<rparr>
      | (s', Inl err) \<Rightarrow> s'\<lparr>last_update_success := False\<rparr>)"

definition available :: "coordinator \<Rightarrow> bool" where
  "available s = (last_update_success s \<and> data s \<noteq> None)"

section \<open>Notions used to state the properties\<close>

text \<open>The keys of a dict.\<close>

definition keys :: "snapshot \<Rightarrow> string set" where
  "keys d = fst ` set d"

text \<open>
  What the two fetches of a cycle contribute: the main data when the main fetch is due and
  returns, the consumption data when the consumption fetch returns, nothing otherwise.
\<close>

definition main_updates :: "config \<Rightarrow> env \<Rightarrow> coordinator \<Rightarrow> snapshot" where
  "main_updates cfg E s =
     (if main_due cfg E s then
        (case get_main_data E (receipt_line_key s) of Inr m \<Rightarrow> m | Inl err \<Rightarrow> [])
      else [])"

definition consumption_updates :: "pylib \<Rightarrow> env \<Rightarrow> coordinator \<Rightarrow> snapshot" where
  "consumption_updates L E s =
     (case get_consumption_data L E (receipt_line_key s) of Inr c \<Rightarrow> c | Inl err \<Rightarrow> [])"

text \<open>
  The invariant of the published snapshot that the counter relies on: the value under
  \<^verbatim>\<open>water_consumption\<close>, when there is one, is an \<^verbatim>\<open>int\<close>.
\<close>

fun int_val :: "val \<Rightarrow> bool" where
  "int_val (J (JInt c)) = True"
| "int_val v = False"

definition water_ok :: "snapshot \<Rightarrow> bool" where
  "water_ok d = list_all (\<lambda>kv. fst kv = ''water_consumption'' \<longrightarrow> int_val (snd kv)) d"

text \<open>
  The write that a category item makes, in the words of the specification: an item whose
  code is in the catalog and whose value is not null writes the canonical key with the
  value as it is; any other item writes nothing.
\<close>

definition write_of :: "json \<Rightarrow> (string \<times> val) option" where
  "write_of item =
     (case item of
        JObj kvs \<Rightarrow>
          (case (map_of kvs ''code'', map_of kvs ''value'') of
             (Some (JStr c), Some v) \<Rightarrow>
               (if v \<noteq> JNull then map_option (\<lambda>k. (k, J v)) (map_of code_mapping c) else None)
           | _ \<Rightarrow> None)
      | _ \<Rightarrow> None)"

text \<open>The items of the categories that are lists, in iteration order.\<close>

fun category_items :: "(string \<times> json) list \<Rightarrow> json list" where
  "category_items [] = []"
| "category_items ((category_name, JList items) # cs) = items @ category_items cs"
| "category_items ((category_name, category_data) # cs) = category_items cs"

section \<open>A concrete device and library, for the examples\<close>

text \<open>
  A vendor summary with a catalog item, an item whose code is not in the catalog, a catalog
  item whose value is null, and a category that is not a list.
\<close>

definition ex_summary :: json where
  "ex_summary =
     JObj [(''online'', JBool True),
           (''data'', JObj [(''standBy'', JBool False), (''salt'', JInt 80)]),
           (''dataCategories'',
              JObj [(''config'',
                       JList [JObj [(''code'', JStr ''resinVol''), (''value'', JInt 20)],
                              JObj [(''code'', JStr ''firmware''), (''value'', JStr ''1.2'')],
                              JObj [(''code'', JStr ''pressure''), (''value'', JNull)]]),
                    (''misc'', JStr ''n/a'')])]"

text \<open>A chart dataset whose \<^verbatim>\<open>refreshDate\<close> matches none of the four formats.\<close>

definition ex_dataset :: json where
  "ex_dataset =
     JObj [(''refreshDate'', JStr ''27/11/2025 21:54''),
           (''lines'',
              JList [JList [JStr ''2025-11-27'', JInt 2, JBool False, JInt 140, JBool False]])]"

definition ex_dataset2 :: json where
  "ex_dataset2 =
     JObj [(''refreshDate'', JStr ''2025-11-27T22:10:00.000''),
           (''lines'',
              JList [JList [JStr ''2025-11-27'', JInt 2, JBool False, JInt 160, JBool False]])]"

text \<open>
  A library that knows the texts of the example pages: the date \<^verbatim>\<open>2025-11-27\<close> in the
  date-only format and \<^verbatim>\<open>2025-11-27T22:10:00.000\<close> in the first format, the attribute texts \<^verbatim>\<open>{}\<close>, \<^verbatim>\<open>dataset\<close> and \<^verbatim>\<open>dataset2\<close>, the numerals
  \<^verbatim>\<open>25\<close> and \<^verbatim>\<open>0\<close>; the host's time zone is UTC.
\<close>

definition ex_lib :: pylib where
  "ex_lib =
     \<lparr>strptime = (\<lambda>s fmt.
        if s = ''2025-11-27'' \<and> fmt = ''%Y-%m-%d'' then Inr (Datetime 2025 11 27 0 0 0 0)
        else if s = ''2025-11-27T22:10:00.000'' \<and> fmt = ''%Y-%m-%dT%H:%M:%S.%f''
          then Inr (Datetime 2025 11 27 22 10 0 0)
        else Inl (Exn ValueError ''time data does not match format'')),
      as_utc = Inr,
      json_loads = (\<lambda>s.
        if s = ''{}'' then Inr (JObj [])
        else if s = ''dataset'' then Inr ex_dataset
        else if s = ''dataset2'' then Inr ex_dataset2
        else Inl (Exn ValueError ''Expecting value'')),
      unescape = (\<lambda>s. s),
      int_of_str = (\<lambda>s.
        if s = ''25'' then Inr 25
        else if s = ''0'' then Inr 0
        else Inl (Exn ValueError ''invalid literal for int()'')),
      re_compile = (\<lambda>p. Inr (contains p))\<rparr>"

definition ex_env :: env where
  "ex_env =
     \<lparr>post_login = Inr 200,
      get_dashboard = Inr [\<lparr>info_spans = Some [''SN123''], href = ''/device?receiptLineKey=abc&x=1''\<rparr>],
      get_summary = (\<lambda>k. Inr \<lparr>status_code = 200, body_json = Inr ex_summary\<rparr>),
      get_device = (\<lambda>k. Inr (Some [(''data-controller'', ''live''), (''data-live-props-value'', ''{}'')])),
      post_load_conso = (\<lambda>payload.
        Inr (Some [(''id'', ''graph_device''), (''data-chart-dataset-value'', ''dataset''),
                   (''data-chart-salt-value'', ''25'')])),
      loop_time_check = 5000,
      loop_time_main = 5001\<rparr>"

text \<open>A later reading of the same day, and a cycle in which both requests time out.\<close>

definition ex_env2 :: env where
  "ex_env2 =
     ex_env\<lparr>post_load_conso := (\<lambda>payload.
        Inr (Some [(''id'', ''graph_device''), (''data-chart-dataset-value'', ''dataset2''),
                   (''data-chart-salt-value'', ''25'')]))\<rparr>"

definition ex_env_down :: env where
  "ex_env_down =
     ex_env\<lparr>get_summary := (\<lambda>k. Inl (Exn OtherError ''Connection timed out'')),
            get_device := (\<lambda>k. Inl (Exn OtherError ''Connection timed out''))\<rparr>"

definition ex_cfg :: config where
  "ex_cfg =
     \<lparr>serial_number = ''SN123'', options_interval_main = None, data_interval_main = Some 900,
      DEFAULT_INTERVAL_MAIN = 3600\<rparr>"



text \<open>
  A coordinator that holds a token and a published snapshot of 5 fields, and a cycle in
  which the summary request times out while the device pages are served.
\<close>

definition ex_state5 :: coordinator where
  "ex_state5 =
     \<lparr>receipt_line_key = Some ''abc'', last_main_update = 100, last_water_consumption = 0,
      data = Some
        [(''online'', J (JBool True)), (''standby'', J (JBool False)), (''salt'', J (JInt 80)),
         (''resin_vol'', J (JInt 20)), (''vol_ok'', J (JInt 1200))],
      last_update_success = True\<rparr>"

definition ex_env_main_down :: env where
  "ex_env_main_down = ex_env\<lparr>get_summary := (\<lambda>k. Inl (Exn OtherError ''Connection timed out''))\<rparr>"



definition ex_env_no_graph :: env where
  "ex_env_no_graph = ex_env\<lparr>post_load_conso := (\<lambda>payload. Inr None)\<rparr>"

definition ex_env_no_graph_main_down :: env where
  "ex_env_no_graph_main_down =
     ex_env_no_graph\<lparr>get_summary := (\<lambda>k. Inl (Exn OtherError ''Connection timed out''))\<rparr>"

section \<open>Properties of the rollover-aware counter\<close>

lemma compute_increment_snd: "snd (compute_increment p v) = v"
  by (simp add: compute_increment_def)

lemma length_increments: "length (increments p vs) = length vs"
  by (induction vs arbitrary: p) auto

lemma increments_nth:
  "i < length vs \<Longrightarrow>
   increments p vs ! i = fst (compute_increment (if i = 0 then p else vs ! (i - 1)) (vs ! i))"
proof (induction vs arbitrary: p i)
  case Nil
  then show ?case by simp
next
  case (Cons v vs)
  show ?case
  proof (cases i)
    case 0
    then show ?thesis by simp
  next
    case (Suc j)
    with Cons.prems have j: "j < length vs" by simp
    show ?thesis
      using Cons.IH [OF j, of "snd (compute_increment p v)"] Suc
      by (cases j) (simp_all add: compute_increment_snd)
  qed
qed

lemma final_baseline_last: "final_baseline p vs = (if vs = [] then p else last vs)"
  by (induction vs arbitrary: p) (auto simp: compute_increment_snd)

lemma increments_nonneg:
  "0 \<le> p \<Longrightarrow> \<forall>v\<in>set vs. 0 \<le> v \<Longrightarrow> \<forall>x\<in>set (increments p vs). 0 \<le> x"
  by (induction vs arbitrary: p) (auto simp: compute_increment_def)

text \<open>
  Claim C1, amended. The coordinator has no "nothing recorded" state: the stored value
  starts at 0 and the guard \<^verbatim>\<open>self._last_water_consumption > 0\<close> decides whether a
  baseline exists. For every sequence of cumulative values fed to a new coordinator: the
  increment of the first value is 0; the increment of a later value is 0 when the value
  before it is 0 or less, the value itself when it is less than a positive value before it,
  and the difference otherwise; the stored value is the current value after every
  computation.
\<close>

theorem rollover_increments:
  "length (increments initial_last_water_consumption vs) = length vs
   \<and> (\<forall>i<length vs.
        increments initial_last_water_consumption vs ! i =
          (if i = 0 then 0
           else if vs ! (i - 1) \<le> 0 then 0
           else if vs ! i < vs ! (i - 1) then vs ! i
           else vs ! i - vs ! (i - 1)))
   \<and> (\<forall>p v. snd (compute_increment p v) = v)
   \<and> final_baseline initial_last_water_consumption vs =
        (if vs = [] then initial_last_water_consumption else last vs)"
  by (auto simp: length_increments increments_nth final_baseline_last compute_increment_def
      initial_last_water_consumption_def)

theorem rollover_increments_witness:
  "(2::nat) < length [0, 150, 140, 300::int]
   \<and> increments initial_last_water_consumption [0, 150, 140, 300] ! 2 = 140"
  using rollover_increments [of "[0, 150, 140, 300]"]
  by (simp add: compute_increment_def initial_last_water_consumption_def)

text \<open>
  Claim C1 as stated fails on its own example: after the first value 0 the stored value is
  still 0, so the second value 150 gets the increment 0, not 150.
\<close>

theorem rollover_scenario_counterexample:
  "increments initial_last_water_consumption [0, 150, 140, 300] = [0, 0, 140, 160]
   \<and> increments initial_last_water_consumption [0, 150, 140, 300] \<noteq> [0, 150, 140, 160]"
  by (simp add: initial_last_water_consumption_def compute_increment_def)

text \<open>
  Claim C2. For every sequence of non-negative cumulative values fed to a new coordinator,
  every computed increment is at least 0.
\<close>

theorem increments_nonnegative:
  "\<forall>v\<in>set vs. 0 \<le> v \<Longrightarrow> \<forall>x\<in>set (increments initial_last_water_consumption vs). 0 \<le> x"
  using increments_nonneg [of initial_last_water_consumption vs]
  by (simp add: initial_last_water_consumption_def)

theorem increments_nonnegative_witness:
  "list_all (\<lambda>v. 0 \<le> v) [0, 150, 140, 300::int]
   \<and> list_all (\<lambda>x. 0 \<le> x) (increments initial_last_water_consumption [0, 150, 140, 300])"
  using increments_nonnegative [of "[0, 150, 140, 300]"] by (simp add: list_all_iff)

section \<open>Dictionaries and sequencing\<close>

lemma and_then_Inl [simp]: "and_then (Inl e) f = Inl e"
  by (simp add: and_then_def)

lemma and_then_Inr [simp]: "and_then (Inr x) f = f x"
  by (simp add: and_then_def)

lemma and_then_eq_Inr: "and_then r f = Inr y \<longleftrightarrow> (\<exists>x. r = Inr x \<and> f x = Inr y)"
  by (cases r) simp_all

lemma keys_update: "keys (AList.update k v d) = insert k (keys d)"
  by (simp add: keys_def dom_update)

lemma length_update: "length d \<le> length (AList.update k v d)"
  by (induction d) auto

lemma keys_dict_update: "keys (dict_update d u) = keys d \<union> keys u"
  unfolding dict_update_def
proof (induction u arbitrary: d)
  case Nil
  then show ?case by (simp add: keys_def)
next
  case (Cons kv u)
  show ?case by (simp add: Cons.IH keys_update) (auto simp: keys_def)
qed

lemma length_dict_update: "length d \<le> length (dict_update d u)"
  unfolding dict_update_def
proof (induction u arbitrary: d)
  case Nil
  then show ?case by simp
next
  case (Cons kv u)
  show ?case
    using Cons.IH [of "AList.update (fst kv) (snd kv) d"] length_update [of d "fst kv" "snd kv"]
    by simp
qed

lemma map_of_dict_update_other:
  "k \<notin> keys u \<Longrightarrow> map_of (dict_update d u) k = map_of d k"
  unfolding dict_update_def
proof (induction u arbitrary: d)
  case Nil
  then show ?case by simp
next
  case (Cons kv u)
  then show ?case by (auto simp: keys_def update_conv')
qed

lemma map_of_dict_update:
  "map_of (dict_update d u) k =
     (case map_of (rev u) k of Some v \<Rightarrow> Some v | None \<Rightarrow> map_of d k)"
  unfolding dict_update_def
proof (induction u arbitrary: d)
  case Nil
  then show ?case by simp
next
  case (Cons kv u)
  show ?case
    by (cases kv) (auto simp: Cons.IH update_conv' map_add_def split: option.splits)
qed

lemma keys_eq_dom: "keys d = dom (map_of d)"
  by (simp add: keys_def dom_map_of_conv_image_fst)

lemma three_keys_length:
  assumes "{a, b, c} \<subseteq> keys d" "a \<noteq> b" "a \<noteq> c" "b \<noteq> c"
  shows "3 \<le> length d"
proof -
  have "card {a, b, c} = 3" using assms by simp
  moreover have "card {a, b, c} \<le> card (keys d)"
    using assms(1) by (intro card_mono) (simp_all add: keys_def)
  moreover have "card (keys d) \<le> length d"
    unfolding keys_def by (metis card_image_le card_length le_trans List.finite_set)
  ultimately show ?thesis by linarith
qed

section \<open>The main-data extractor writes the catalog's keys\<close>

lemma dict_update_Nil [simp]: "dict_update d [] = d"
  by (simp add: dict_update_def)

lemma dict_update_Cons: "dict_update d (kv # u) = dict_update (AList.update (fst kv) (snd kv) d) u"
  by (simp add: dict_update_def)

lemma dict_update_append: "dict_update d (u @ w) = dict_update (dict_update d u) w"
  by (simp add: dict_update_def)

lemma py_get_Inr: "py_get v k dflt = Inr x \<Longrightarrow> \<exists>kvs. v = JObj kvs"
  by (cases v) simp_all

lemma map_of_code_mapping_Nil: "map_of code_mapping [] = None"
  by (simp add: code_mapping_def)

lemma main_item_write:
  assumes "main_item r item = Inr r'"
  shows "r' = (case write_of item of Some kv \<Rightarrow> AList.update (fst kv) (snd kv) r | None \<Rightarrow> r)"
proof -
  obtain code where c: "py_get item ''code'' JNull = Inr code"
    using assms by (auto simp: main_item_def and_then_eq_Inr)
  then obtain kvs where item: "item = JObj kvs"
    using py_get_Inr by blast
  show ?thesis
  proof (cases "map_of kvs ''code''")
    case None
    then show ?thesis using assms item by (simp add: main_item_def write_of_def)
  next
    case (Some cd)
    show ?thesis
    proof (cases "map_of kvs ''value''")
      case None
      then show ?thesis using assms item Some
        by (cases cd) (simp_all add: main_item_def write_of_def)
    next
      case (Some v)
      note v = this
      show ?thesis
      proof (cases cd)
        case (JStr c)
        then show ?thesis
          using assms item v \<open>map_of kvs ''code'' = Some cd\<close> map_of_code_mapping_Nil
          by (cases "c = []"; cases "map_of code_mapping c")
            (auto simp: main_item_def write_of_def split: if_splits)
      qed (use assms item v \<open>map_of kvs ''code'' = Some cd\<close> in
          \<open>auto simp: main_item_def write_of_def split: if_splits\<close>)
    qed
  qed
qed

lemma main_category_writes:
  "main_category r items = Inr r' \<Longrightarrow> r' = dict_update r (List.map_filter write_of items)"
proof (induction items arbitrary: r)
  case Nil
  then show ?case by simp
next
  case (Cons item items)
  from Cons.prems obtain r1 where
    r1: "main_item r item = Inr r1" and rest: "main_category r1 items = Inr r'"
    by (auto simp: and_then_eq_Inr)
  show ?case
    using Cons.IH [OF rest] main_item_write [OF r1]
    by (cases "write_of item") (simp_all add: dict_update_Cons)
qed

lemma map_filter_append: "List.map_filter f (xs @ ys) = List.map_filter f xs @ List.map_filter f ys"
  by (simp add: List.map_filter_def)

lemma main_categories_writes:
  "main_categories r cats = Inr r' \<Longrightarrow>
   r' = dict_update r (List.map_filter write_of (category_items cats))"
proof (induction r cats rule: main_categories.induct)
  case (1 result)
  then show ?case by simp
next
  case (2 result category_name items cs)
  from "2.prems" obtain r1 where
    r1: "main_category result items = Inr r1" and rest: "main_categories r1 cs = Inr r'"
    by (auto simp: and_then_eq_Inr)
  show ?case
    using "2.IH" [OF rest] main_category_writes [OF r1]
    by (simp add: map_filter_append dict_update_append)
qed simp_all

lemma write_of_key: "write_of item = Some kv \<Longrightarrow> fst kv \<in> snd ` set code_mapping"
  by (auto simp: write_of_def split: json.splits option.splits if_splits
      dest!: map_of_SomeD intro: rev_image_eqI)

lemma keys_map_filter_write_of:
  "keys (List.map_filter write_of items) \<subseteq> snd ` set code_mapping"
  using write_of_key by (fastforce simp: keys_def List.map_filter_def)

lemma get_main_data_shape:
  assumes "get_main_data E key = Inr r"
  shows "\<exists>resp dat online standby salt cats.
           get_summary E (key_str key) = Inr resp \<and> status_code resp = 200
           \<and> body_json resp = Inr dat
           \<and> py_get dat ''online'' (JBool False) = Inr online
           \<and> py_get dat ''dataCategories'' (JObj []) = Inr (JObj cats)
           \<and> r = dict_update [(''online'', J online), (''standby'', J standby), (''salt'', J salt)]
                  (List.map_filter write_of (category_items cats))"
proof -
  from assms obtain resp where resp: "get_summary E (key_str key) = Inr resp"
    by (auto simp: get_main_data_def and_then_eq_Inr)
  with assms have st: "status_code resp = 200"
    by (auto simp: get_main_data_def split: if_splits)
  from assms resp st obtain dat online standby salt categories cats where
    "body_json resp = Inr dat" "py_get dat ''online'' (JBool False) = Inr online"
    "py_get dat ''dataCategories'' (JObj []) = Inr categories"
    "py_items categories = Inr cats"
    "main_categories [(''online'', J online), (''standby'', J standby), (''salt'', J salt)] cats = Inr r"
    by (auto simp: get_main_data_def and_then_eq_Inr)
  moreover from this have "categories = JObj cats"
    by (cases categories) simp_all
  ultimately show ?thesis
    using resp st main_categories_writes by blast
qed

section \<open>The orchestrator's steps\<close>

lemma water_ok_update:
  "water_ok d \<Longrightarrow> (k = ''water_consumption'' \<longrightarrow> int_val v) \<Longrightarrow> water_ok (AList.update k v d)"
  unfolding water_ok_def by (induction d) auto

lemma water_ok_dict_update: "water_ok d \<Longrightarrow> water_ok u \<Longrightarrow> water_ok (dict_update d u)"
proof (induction u arbitrary: d)
  case Nil
  then show ?case by simp
next
  case (Cons kv u)
  from Cons.prems(2) have kv: "fst kv = ''water_consumption'' \<longrightarrow> int_val (snd kv)"
    and u: "water_ok u"
    by (simp_all add: water_ok_def)
  show ?case
    using Cons.IH [OF water_ok_update [OF Cons.prems(1) kv] u]
    by (simp add: dict_update_Cons)
qed

lemma water_ok_lookup:
  "water_ok d \<Longrightarrow> map_of d ''water_consumption'' = Some v \<Longrightarrow> \<exists>c. v = J (JInt c)"
proof -
  assume ok: "water_ok d" and look: "map_of d ''water_consumption'' = Some v"
  from look have "(''water_consumption'', v) \<in> set d" by (rule map_of_SomeD)
  with ok have "int_val v" by (auto simp: water_ok_def list_all_iff)
  then show ?thesis by (cases v rule: int_val.cases) simp_all
qed

lemma increment_step_ok:
  assumes "water_ok d"
  shows "\<exists>s' d'. increment_step s d = Inr (s', d')"
proof (cases "map_of d ''water_consumption''")
  case None
  then show ?thesis by (simp add: increment_step_def)
next
  case (Some v)
  with water_ok_lookup [OF assms] obtain c where "v = J (JInt c)" by blast
  with Some show ?thesis by (simp add: increment_step_def)
qed

lemma increment_step_result:
  assumes "increment_step s d = Inr (s', d')"
  shows "d' = d \<or> (\<exists>v. d' = AList.update ''water_increment'' v d)"
    and "receipt_line_key s' = receipt_line_key s"
    and "last_main_update s' = last_main_update s"
    and "data s' = data s"
  using assms
  by (auto simp: increment_step_def split: option.splits val.splits json.splits)

lemma increment_step_keys:
  assumes "increment_step s d = Inr (s', d')"
  shows "keys d \<subseteq> keys d'" and "length d \<le> length d'"
    and "k \<noteq> ''water_increment'' \<Longrightarrow> map_of d' k = map_of d k"
  using increment_step_result(1) [OF assms] length_update [of d "''water_increment''"]
  by (auto simp: keys_update update_conv')

lemma increment_step_err: "increment_step s d = Inl err \<Longrightarrow> \<not> auth_marker err \<and> err \<noteq> insufficient"
  by (auto simp: increment_step_def auth_marker_def insufficient_def
      split: option.splits val.splits json.splits)

lemma insufficient_no_marker: "\<not> auth_marker insufficient"
  by (simp add: auth_marker_def insufficient_def)

lemma main_step_frame:
  assumes "main_step cfg E s d = (s', d')"
  shows "receipt_line_key s' = receipt_line_key s"
    and "last_water_consumption s' = last_water_consumption s"
    and "data s' = data s"
    and "d' = dict_update d (main_updates cfg E s)"
  using assms
  by (auto simp: main_step_def main_updates_def split: if_splits sum.splits)

lemma consumption_step_updates: "consumption_step L E s d = dict_update d (consumption_updates L E s)"
  by (simp add: consumption_step_def consumption_updates_def split: sum.splits)

lemma merge_fetches_eq:
  assumes "merge_fetches cfg L E s = (s', d)"
  shows "d = dict_update (dict_update (existing_data s) (main_updates cfg E s)) (consumption_updates L E s)"
    and "receipt_line_key s' = receipt_line_key s"
    and "data s' = data s"
    and "last_water_consumption s' = last_water_consumption s"
proof -
  obtain s1 d1 where m: "main_step cfg E s (existing_data s) = (s1, d1)"
    by (cases "main_step cfg E s (existing_data s)")
  with assms have s': "s' = s1" and d: "d = consumption_step L E s1 d1"
    by (auto simp: merge_fetches_def)
  note f = main_step_frame [OF m]
  have "consumption_updates L E s1 = consumption_updates L E s"
    by (simp add: consumption_updates_def f(1))
  then show "d = dict_update (dict_update (existing_data s) (main_updates cfg E s)) (consumption_updates L E s)"
    using d f(4) by (simp add: consumption_step_updates)
  show "receipt_line_key s' = receipt_line_key s" "data s' = data s"
    "last_water_consumption s' = last_water_consumption s"
    using s' f by simp_all
qed

lemma ensure_auth_frame:
  assumes "ensure_auth cfg L E s = Inr s1"
  shows "data s1 = data s" and "last_main_update s1 = last_main_update s"
    and "last_water_consumption s1 = last_water_consumption s"
    and "existing_data s1 = existing_data s"
    and "\<not> needs_auth s \<Longrightarrow> s1 = s"
  using assms
  by (auto simp: ensure_auth_def existing_data_def and_then_eq_Inr split: if_splits)

section \<open>What the extractors can store\<close>

lemma keys_Nil: "keys [] = {}"
  by (simp add: keys_def)

lemma keys_Cons: "keys (kv # d) = insert (fst kv) (keys d)"
  by (simp add: keys_def)

lemma get_main_data_keys:
  assumes "get_main_data E key = Inr r"
  shows "keys r \<subseteq> {''online'', ''standby'', ''salt''} \<union> snd ` set code_mapping"
proof -
  from get_main_data_shape [OF assms] obtain online standby salt cats where
    "r = dict_update [(''online'', J online), (''standby'', J standby), (''salt'', J salt)]
           (List.map_filter write_of (category_items cats))"
    by blast
  then show ?thesis
    using keys_map_filter_write_of [of "category_items cats"]
    by (auto simp: keys_dict_update keys_Cons keys_Nil)
qed

lemma get_main_data_three:
  assumes "get_main_data E key = Inr r"
  shows "{''online'', ''standby'', ''salt''} \<subseteq> keys r" and "3 \<le> length r"
proof -
  from get_main_data_shape [OF assms] obtain online standby salt cats where
    "r = dict_update [(''online'', J online), (''standby'', J standby), (''salt'', J salt)]
           (List.map_filter write_of (category_items cats))"
    by blast
  then show k: "{''online'', ''standby'', ''salt''} \<subseteq> keys r"
    by (simp add: keys_dict_update keys_Cons keys_Nil)
  show "3 \<le> length r"
    by (rule three_keys_length [OF k]) simp_all
qed

lemma water_ok_no_key: "''water_consumption'' \<notin> keys d \<Longrightarrow> water_ok d"
  by (force simp: water_ok_def keys_def list_all_iff)

lemma get_main_data_water_ok: "get_main_data E key = Inr r \<Longrightarrow> water_ok r"
  using get_main_data_keys [of E key r]
  by (intro water_ok_no_key) (auto simp: code_mapping_def)

lemma parse_refresh_date_water_ok:
  "parse_refresh_date L dj r = Inr r' \<Longrightarrow> water_ok r \<Longrightarrow> water_ok r'"
  by (auto simp: parse_refresh_date_def and_then_eq_Inr water_ok_update split: if_splits)

lemma parse_first_line_water_ok:
  assumes "parse_first_line L spr fl r = Inr r'" "water_ok r"
  shows "water_ok r'"
proof -
  from assms(1) obtain u where r': "r' = dict_update r u" and u: "water_ok u"
    by (auto simp: parse_first_line_def and_then_eq_Inr water_ok_def)
  show ?thesis unfolding r' by (rule water_ok_dict_update [OF assms(2) u])
qed

lemma parse_lines_water_ok:
  "parse_lines L spr dj r = Inr r' \<Longrightarrow> water_ok r \<Longrightarrow> water_ok r'"
  by (auto simp: parse_lines_def and_then_eq_Inr parse_first_line_water_ok split: if_splits)

lemma water_ok_Nil: "water_ok []"
  by (simp add: water_ok_def)

lemma get_consumption_data_water_ok:
  assumes "get_consumption_data L E key = Inr c"
  shows "water_ok c"
proof -
  from assms obtain live where live: "get_device E (key_str key) = Inr (Some live)"
    by (auto simp: get_consumption_data_def and_then_eq_Inr split: option.splits)
  from assms live obtain props graph_div where
    g: "post_load_conso E (JObj [(''props'', props), (''updated'', JObj []), (''args'', JObj [])])
          = Inr graph_div"
    and p: "json_loads L (unescape L (tag_get live ''data-live-props-value'' [])) = Inr props"
    by (auto simp: get_consumption_data_def and_then_eq_Inr)
  show ?thesis
  proof (cases graph_div)
    case None
    with assms live g p show ?thesis
      by (simp add: get_consumption_data_def water_ok_Nil)
  next
    case (Some graph)
    with assms live g p obtain dj spr r where
      r: "parse_refresh_date L dj [(''salt_per_regen'', J (JInt spr))] = Inr r"
      and c: "parse_lines L spr dj r = Inr c"
      by (auto simp: get_consumption_data_def and_then_eq_Inr)
    have "water_ok [(''salt_per_regen'', J (JInt spr))]"
      by (simp add: water_ok_def)
    then have "water_ok r" by (rule parse_refresh_date_water_ok [OF r])
    then show ?thesis by (rule parse_lines_water_ok [OF c])
  qed
qed

lemma main_updates_water_ok: "water_ok (main_updates cfg E s)"
  by (auto simp: main_updates_def get_main_data_water_ok water_ok_Nil split: sum.splits)

lemma consumption_updates_water_ok: "water_ok (consumption_updates L E s)"
  by (auto simp: consumption_updates_def get_consumption_data_water_ok water_ok_Nil
      split: sum.splits)

lemma merge_fetches_water_ok:
  assumes "merge_fetches cfg L E s = (s', d)" "water_ok (existing_data s)"
  shows "water_ok d"
  unfolding merge_fetches_eq(1) [OF assms(1)]
  by (intro water_ok_dict_update assms(2) main_updates_water_ok consumption_updates_water_ok)

lemma increment_step_water_ok:
  assumes "increment_step s d = Inr (s', d')" "water_ok d"
  shows "water_ok d'"
  using increment_step_result(1) [OF assms(1)] assms(2)
  by (auto intro: water_ok_update)

text \<open>
  The unfolding of a cycle that got past authentication, and the cases of a cycle's result.
\<close>

lemma update_body_after_auth:
  assumes "ensure_auth cfg L E s = Inr s1" "merge_fetches cfg L E s1 = (s2, d2)"
  shows "update_body cfg L E s =
           (case increment_step s2 d2 of
              Inl err \<Rightarrow> (s2, Inl err)
            | Inr (s3, d3) \<Rightarrow> (s3, sufficiency d3))"
  using assms by (simp add: update_body_def)

lemma update_body_cases:
  assumes "update_body cfg L E s = (s', res)"
  obtains (auth) err where "ensure_auth cfg L E s = Inl err" and "s' = s" and "res = Inl err"
  | (incr) s1 d2 err where "ensure_auth cfg L E s = Inr s1" and "merge_fetches cfg L E s1 = (s', d2)"
      and "increment_step s' d2 = Inl err" and "res = Inl err"
  | (checked) s1 s2 d2 d3 where "ensure_auth cfg L E s = Inr s1" and "merge_fetches cfg L E s1 = (s2, d2)"
      and "increment_step s2 d2 = Inr (s', d3)" and "res = sufficiency d3"
proof (cases "ensure_auth cfg L E s")
  case (Inl err)
  with assms have "s' = s" "res = Inl err" by (simp_all add: update_body_def)
  then show ?thesis by (rule auth [OF Inl])
next
  case (Inr s1)
  obtain s2 d2 where m: "merge_fetches cfg L E s1 = (s2, d2)"
    by (cases "merge_fetches cfg L E s1")
  show ?thesis
  proof (cases "increment_step s2 d2")
    case (Inl err)
    with assms Inr m have "s2 = s'" "res = Inl err" by (simp_all add: update_body_def)
    with Inr m Inl show ?thesis by (intro incr [of s1 d2 err]) simp_all
  next
    case incr_ok: (Inr sd)
    obtain s3 d3 where sd: "sd = (s3, d3)" by (cases sd)
    with assms Inr m incr_ok have "s3 = s'" "res = sufficiency d3"
      by (simp_all add: update_body_def)
    with Inr m incr_ok sd show ?thesis by (intro checked [of s1 s2 d2 d3]) simp_all
  qed
qed

lemma update_body_data:
  assumes "update_body cfg L E s = (s', res)"
  shows "data s' = data s"
  using assms
proof (cases rule: update_body_cases)
  case (auth err)
  then show ?thesis by simp
next
  case (incr s1 d2 err)
  then show ?thesis
    using ensure_auth_frame(1) [OF incr(1)] merge_fetches_eq(3) [OF incr(2)] by simp
next
  case (checked s1 s2 d2 d3)
  then show ?thesis
    using ensure_auth_frame(1) [OF checked(1)] merge_fetches_eq(3) [OF checked(2)]
      increment_step_result(4) [OF checked(3)] by simp
qed

lemma async_update_data_data: "async_update_data cfg L E s = (s', res) \<Longrightarrow> data s' = data s"
  by (cases "update_body cfg L E s")
    (auto simp: async_update_data_def split: sum.splits if_splits dest: update_body_data)

text \<open>The counter's invariant holds of every published snapshot.\<close>

lemma refresh_water_ok:
  assumes "water_ok (existing_data s)"
  shows "water_ok (existing_data (refresh cfg L E s))"
proof (cases "async_update_data cfg L E s")
  case (Pair s' res)
  show ?thesis
  proof (cases res)
    case (Inl err)
    with Pair have "data (refresh cfg L E s) = data s'"
      by (simp add: refresh_def)
    with async_update_data_data [OF Pair] assms show ?thesis
      by (simp add: existing_data_def)
  next
    case (Inr d)
    with Pair have pub: "existing_data (refresh cfg L E s) = d"
      by (simp add: refresh_def existing_data_def)
    obtain s0 r0 where b: "update_body cfg L E s = (s0, r0)"
      by (cases "update_body cfg L E s")
    with Pair Inr have r0: "r0 = Inr d"
      by (auto simp: async_update_data_def split: sum.splits)
    from b show ?thesis
    proof (cases rule: update_body_cases)
      case (checked s1 s2 d2 d3)
      with r0 have d3: "d3 = d" by (simp add: sufficiency_def split: if_splits)
      have "water_ok d2"
        using merge_fetches_water_ok [OF checked(2)] assms ensure_auth_frame(4) [OF checked(1)] by simp
      then show ?thesis
        unfolding pub using increment_step_water_ok checked(3) d3 by blast
    qed (use r0 in simp_all)
  qed
qed

section \<open>The example cycle, evaluated\<close>

lemma ex_authenticate: "authenticate ex_cfg ex_lib ex_env = Inr ''abc''"
  by (simp add: authenticate_def ex_env_def ex_cfg_def ex_lib_def)

lemma ex_get_main_data:
  "get_main_data ex_env (Some ''abc'') =
     Inr [(''online'', J (JBool True)), (''standby'', J (JBool False)), (''salt'', J (JInt 80)),
          (''resin_vol'', J (JInt 20))]"
  by (simp add: get_main_data_def ex_env_def ex_summary_def key_str_def main_item_def
      code_mapping_def)

lemma ex_get_consumption_data:
  "get_consumption_data ex_lib ex_env (Some ''abc'') =
     Inr [(''salt_per_regen'', J (JInt 25)), (''refresh_date'', J JNull),
          (''last_date'', J (JStr ''2025-11-27'')), (''regen_count'', J (JInt 2)),
          (''power_outage'', J (JBool False)), (''water_consumption'', J (JInt 140)),
          (''salt_alarm'', J (JBool False)), (''salt_consumption'', J (JInt 50)),
          (''last_update'', Time (Datetime 2025 11 27 0 0 0 0))]"
  by (simp add: get_consumption_data_def ex_env_def ex_lib_def key_str_def tag_get_def
      ex_dataset_def parse_refresh_date_def refresh_date_value_def refresh_formats_def
      parse_date_def parse_lines_def parse_first_line_def dict_update_def)

lemma ex_ensure_auth:
  "ensure_auth ex_cfg ex_lib ex_env init_coordinator =
     Inr (init_coordinator\<lparr>receipt_line_key := Some ''abc''\<rparr>)"
  by (simp add: ensure_auth_def needs_auth_def ex_authenticate) (simp add: init_coordinator_def initial_last_water_consumption_def)

lemma ex_main_due: "main_due ex_cfg ex_env (init_coordinator\<lparr>receipt_line_key := Some ''abc''\<rparr>)"
  by (simp add: main_due_def interval_main_def ex_cfg_def ex_env_def init_coordinator_def initial_last_water_consumption_def)

section \<open>The claims about the main-data extractor\<close>

lemma write_of_iff:
  "write_of item = Some (k, v) \<longleftrightarrow>
     (\<exists>kvs c x. item = JObj kvs \<and> map_of kvs ''code'' = Some (JStr c)
        \<and> map_of code_mapping c = Some k \<and> map_of kvs ''value'' = Some x \<and> x \<noteq> JNull
        \<and> v = J x)"
  by (auto simp: write_of_def split: json.splits option.splits)

lemma sufficiency_enough: "3 \<le> length d \<Longrightarrow> sufficiency d = Inr d"
  by (auto simp: sufficiency_def)

lemma sufficiency_short: "length d < 3 \<Longrightarrow> sufficiency d = Inl insufficient"
  by (auto simp: sufficiency_def)

lemma increment_step_Inl:
  "increment_step s d = Inl err \<Longrightarrow> err = Exn TypeError ''unsupported operand type''"
  by (auto simp: increment_step_def split: option.splits val.splits json.splits)

text \<open>
  Claim C7. For every vendor summary from which \<^verbatim>\<open>_get_main_data\<close> returns, the result
  is the three top-level fields, updated in iteration order with one write per category
  item whose code is in the catalog and whose value is not null: the canonical key, with
  the item's value unchanged. An item writes nothing otherwise, so every key besides the
  three top-level ones is a canonical key of the catalog.
\<close>

theorem main_data_catalog_writes:
  assumes "get_main_data E key = Inr r"
  shows "(\<exists>resp dat online standby salt cats.
            get_summary E (key_str key) = Inr resp \<and> body_json resp = Inr dat
            \<and> py_get dat ''dataCategories'' (JObj []) = Inr (JObj cats)
            \<and> r = dict_update
                  [(''online'', J online), (''standby'', J standby), (''salt'', J salt)]
                  (List.map_filter write_of (category_items cats)))
         \<and> (\<forall>item k v. write_of item = Some (k, v) \<longleftrightarrow>
               (\<exists>kvs c x. item = JObj kvs \<and> map_of kvs ''code'' = Some (JStr c)
                  \<and> map_of code_mapping c = Some k \<and> map_of kvs ''value'' = Some x
                  \<and> x \<noteq> JNull \<and> v = J x))
         \<and> keys r \<subseteq> {''online'', ''standby'', ''salt''} \<union> snd ` set code_mapping"
proof -
  from get_main_data_shape [OF assms] have
    "\<exists>resp dat online standby salt cats.
       get_summary E (key_str key) = Inr resp \<and> body_json resp = Inr dat
       \<and> py_get dat ''dataCategories'' (JObj []) = Inr (JObj cats)
       \<and> r = dict_update
             [(''online'', J online), (''standby'', J standby), (''salt'', J salt)]
             (List.map_filter write_of (category_items cats))"
    by blast
  then show ?thesis
    using write_of_iff get_main_data_keys [OF assms] by blast
qed

theorem main_data_catalog_writes_witness:
  "get_main_data ex_env (Some ''abc'') =
     Inr [(''online'', J (JBool True)), (''standby'', J (JBool False)), (''salt'', J (JInt 80)),
          (''resin_vol'', J (JInt 20))]
   \<and> keys [(''online'', J (JBool True)), (''standby'', J (JBool False)), (''salt'', J (JInt 80)),
          (''resin_vol'', J (JInt 20))]
       \<subseteq> {''online'', ''standby'', ''salt''} \<union> snd ` set code_mapping"
  using main_data_catalog_writes [OF ex_get_main_data] ex_get_main_data by blast

text \<open>
  Claim C10. Every mapping that \<^verbatim>\<open>_get_main_data\<close> returns has the keys
  \<^verbatim>\<open>online\<close>, \<^verbatim>\<open>standby\<close> and \<^verbatim>\<open>salt\<close>, so at least 3 fields. In a cycle whose
  main fetch is made and returns, the merged snapshot has at least 3 fields, the exception
  of the insufficient-data branch never surfaces, and the cycle returns a snapshot when
  the previous one satisfies the counter's invariant.
\<close>

theorem main_data_floor:
  "(get_main_data E key = Inr r \<longrightarrow>
      {''online'', ''standby'', ''salt''} \<subseteq> keys r \<and> 3 \<le> length r)
   \<and> (ensure_auth cfg L E s = Inr s1 \<and> main_due cfg E s1
        \<and> get_main_data E (receipt_line_key s1) = Inr m \<longrightarrow>
        3 \<le> length (snd (merge_fetches cfg L E s1))
        \<and> snd (update_body cfg L E s) \<noteq> Inl insufficient
        \<and> snd (async_update_data cfg L E s) \<noteq> Inl (wrap_error insufficient)
        \<and> (water_ok (existing_data s) \<longrightarrow>
             (\<exists>s' d. async_update_data cfg L E s = (s', Inr d) \<and> 3 \<le> length d)))"
proof (intro conjI impI)
  assume "get_main_data E key = Inr r"
  then show "{''online'', ''standby'', ''salt''} \<subseteq> keys r" "3 \<le> length r"
    by (rule get_main_data_three)+
next
  assume a: "ensure_auth cfg L E s = Inr s1 \<and> main_due cfg E s1
    \<and> get_main_data E (receipt_line_key s1) = Inr m"
  then have auth: "ensure_auth cfg L E s = Inr s1" and mu: "main_updates cfg E s1 = m"
    and m: "get_main_data E (receipt_line_key s1) = Inr m"
    by (simp_all add: main_updates_def)
  obtain s2 d2 where mf: "merge_fetches cfg L E s1 = (s2, d2)"
    by (cases "merge_fetches cfg L E s1")
  have "{''online'', ''standby'', ''salt''} \<subseteq> keys d2"
    using get_main_data_three(1) [OF m]
    unfolding merge_fetches_eq(1) [OF mf] mu by (auto simp: keys_dict_update)
  then have d2: "3 \<le> length d2"
    by (rule three_keys_length) simp_all
  then show len: "3 \<le> length (snd (merge_fetches cfg L E s1))"
    by (simp add: mf)
  note body = update_body_after_auth [OF auth mf]
  have res: "(\<exists>err. snd (update_body cfg L E s) = Inl err \<and> err = Exn TypeError ''unsupported operand type'')
      \<or> (\<exists>d. snd (update_body cfg L E s) = Inr d \<and> 3 \<le> length d)"
  proof (cases "increment_step s2 d2")
    case (Inl err)
    with increment_step_Inl [OF Inl] body show ?thesis by simp
  next
    case (Inr sd)
    obtain s3 d3 where sd: "sd = (s3, d3)" by (cases sd)
    have "3 \<le> length d3"
      using increment_step_keys(2) [OF Inr [unfolded sd]] d2 by linarith
    with Inr sd body show ?thesis by (simp add: sufficiency_enough)
  qed
  then show "snd (update_body cfg L E s) \<noteq> Inl insufficient"
    by (auto simp: insufficient_def)
  from res show "snd (async_update_data cfg L E s) \<noteq> Inl (wrap_error insufficient)"
    by (cases "update_body cfg L E s")
      (auto simp: async_update_data_def insufficient_def wrap_error_def)
  assume ok: "water_ok (existing_data s)"
  have "water_ok d2"
    using merge_fetches_water_ok [OF mf] ok ensure_auth_frame(4) [OF auth] by simp
  from increment_step_ok [OF this, of s2] obtain s3 d3 where
    i: "increment_step s2 d2 = Inr (s3, d3)" by blast
  have "3 \<le> length d3"
    using increment_step_keys(2) [OF i] d2 by linarith
  with i body have "update_body cfg L E s = (s3, Inr d3)"
    by (simp add: sufficiency_enough)
  then show "\<exists>s' d. async_update_data cfg L E s = (s', Inr d) \<and> 3 \<le> length d"
    using \<open>3 \<le> length d3\<close> by (simp add: async_update_data_def)
qed

theorem main_data_floor_witness:
  "ensure_auth ex_cfg ex_lib ex_env init_coordinator =
     Inr (init_coordinator\<lparr>receipt_line_key := Some ''abc''\<rparr>)
   \<and> main_due ex_cfg ex_env (init_coordinator\<lparr>receipt_line_key := Some ''abc''\<rparr>)
   \<and> get_main_data ex_env (Some ''abc'') =
       Inr [(''online'', J (JBool True)), (''standby'', J (JBool False)), (''salt'', J (JInt 80)),
            (''resin_vol'', J (JInt 20))]
   \<and> water_ok (existing_data init_coordinator)
   \<and> 3 \<le> length (snd (merge_fetches ex_cfg ex_lib ex_env
                          (init_coordinator\<lparr>receipt_line_key := Some ''abc''\<rparr>)))
   \<and> snd (async_update_data ex_cfg ex_lib ex_env init_coordinator) \<noteq> Inl (wrap_error insufficient)
   \<and> (\<exists>s' d. async_update_data ex_cfg ex_lib ex_env init_coordinator = (s', Inr d) \<and> 3 \<le> length d)"
proof -
  have k: "receipt_line_key (init_coordinator\<lparr>receipt_line_key := Some ''abc''\<rparr>) = Some ''abc''"
    by simp
  have ok: "water_ok (existing_data init_coordinator)"
    by (simp add: existing_data_def init_coordinator_def initial_last_water_consumption_def water_ok_def)
  show ?thesis
    using main_data_floor [of ex_env "Some ''abc''" _ ex_cfg ex_lib init_coordinator
        "init_coordinator\<lparr>receipt_line_key := Some ''abc''\<rparr>"]
      ex_ensure_auth ex_main_due ex_get_main_data ok
    unfolding k by blast
qed

section \<open>The cycle as a whole\<close>

lemma async_update_data_Inr:
  "update_body cfg L E s = (s', Inr d) \<Longrightarrow> async_update_data cfg L E s = (s', Inr d)"
  by (simp add: async_update_data_def)

lemma async_update_data_Inl:
  "update_body cfg L E s = (s', Inl err) \<Longrightarrow>
   async_update_data cfg L E s =
     ((if auth_marker err then s'\<lparr>receipt_line_key := None\<rparr> else s'), Inl (wrap_error err))"
  by (simp add: async_update_data_def)

lemma refresh_Inr:
  "async_update_data cfg L E s = (s', Inr d) \<Longrightarrow>
   refresh cfg L E s = s'\<lparr>data := Some d, last_update_success := True\<rparr>"
  by (simp add: refresh_def)

lemma refresh_Inl:
  "async_update_data cfg L E s = (s', Inl err) \<Longrightarrow>
   refresh cfg L E s = s'\<lparr>last_update_success := False\<rparr>"
  by (simp add: refresh_def)

lemma ex_down_ensure_auth:
  "ensure_auth ex_cfg ex_lib ex_env_down init_coordinator =
     Inr (init_coordinator\<lparr>receipt_line_key := Some ''abc''\<rparr>)"
  by (simp add: ensure_auth_def needs_auth_def authenticate_def ex_env_down_def ex_env_def
      ex_cfg_def ex_lib_def)
    (simp add: init_coordinator_def initial_last_water_consumption_def)

lemma ex_down_get_main_data:
  "get_main_data ex_env_down (Some ''abc'') = Inl (Exn OtherError ''Connection timed out'')"
  by (simp add: get_main_data_def ex_env_down_def ex_env_def key_str_def)

lemma ex_down_get_consumption_data:
  "get_consumption_data ex_lib ex_env_down (Some ''abc'') = Inl (Exn OtherError ''Connection timed out'')"
  by (simp add: get_consumption_data_def ex_env_down_def ex_env_def key_str_def)

text \<open>
  Claim C4. In every cycle that gets past authentication, with \<open>d3\<close> the merged snapshot
  that reaches the check of lines 105 to 106 (the previous snapshot, this cycle's updates
  and the increment): when \<open>d3\<close> has fewer than 3 fields the cycle fails with the
  insufficient-data error and the published snapshot stays as it was; when it has 3 or more
  the cycle returns \<open>d3\<close>, which the host publishes. When both fetches raise and nothing
  was published before, the cycle fails with the insufficient-data error.
\<close>

theorem sufficiency_check:
  assumes "ensure_auth cfg L E s = Inr s1"
  shows "(\<forall>s2 d2 s3 d3.
            merge_fetches cfg L E s1 = (s2, d2) \<and> increment_step s2 d2 = Inr (s3, d3) \<longrightarrow>
              (length d3 < 3 \<longrightarrow>
                 async_update_data cfg L E s = (s3, Inl (wrap_error insufficient))
                 \<and> data (refresh cfg L E s) = data s
                 \<and> \<not> last_update_success (refresh cfg L E s))
              \<and> (3 \<le> length d3 \<longrightarrow>
                 async_update_data cfg L E s = (s3, Inr d3)
                 \<and> data (refresh cfg L E s) = Some d3))
         \<and> (data s = None \<and> get_main_data E (receipt_line_key s1) = Inl e1
              \<and> get_consumption_data L E (receipt_line_key s1) = Inl e2 \<longrightarrow>
              async_update_data cfg L E s = (s1, Inl (wrap_error insufficient)))"
proof (intro conjI allI impI)
  fix s2 d2 s3 d3
  assume h: "merge_fetches cfg L E s1 = (s2, d2) \<and> increment_step s2 d2 = Inr (s3, d3)"
  then have body: "update_body cfg L E s = (s3, sufficiency d3)"
    using update_body_after_auth [OF assms, of s2 d2] by simp
  {
    assume "length d3 < 3"
    then have b: "update_body cfg L E s = (s3, Inl insufficient)"
      using body by (simp add: sufficiency_short)
    from async_update_data_Inl [OF b]
    show a: "async_update_data cfg L E s = (s3, Inl (wrap_error insufficient))"
      by (simp add: insufficient_no_marker)
    show "data (refresh cfg L E s) = data s"
      using refresh_Inl [OF a] update_body_data [OF b] by simp
    show "\<not> last_update_success (refresh cfg L E s)"
      using refresh_Inl [OF a] by simp
  }
  {
    assume "3 \<le> length d3"
    then have b: "update_body cfg L E s = (s3, Inr d3)"
      using body by (simp add: sufficiency_enough)
    show a: "async_update_data cfg L E s = (s3, Inr d3)"
      by (rule async_update_data_Inr [OF b])
    show "data (refresh cfg L E s) = Some d3"
      using refresh_Inr [OF a] by simp
  }
next
  assume h: "data s = None \<and> get_main_data E (receipt_line_key s1) = Inl e1
    \<and> get_consumption_data L E (receipt_line_key s1) = Inl e2"
  then have "existing_data s1 = []"
    using ensure_auth_frame(4) [OF assms] by (simp add: existing_data_def)
  with h have m: "merge_fetches cfg L E s1 = (s1, [])"
    by (simp add: merge_fetches_def main_step_def consumption_step_def)
  have "update_body cfg L E s = (s1, Inl insufficient)"
    using update_body_after_auth [OF assms m]
    by (simp add: increment_step_def sufficiency_def)
  from async_update_data_Inl [OF this]
  show "async_update_data cfg L E s = (s1, Inl (wrap_error insufficient))"
    by (simp add: insufficient_no_marker)
qed

theorem sufficiency_check_witness:
  "ensure_auth ex_cfg ex_lib ex_env_down init_coordinator =
     Inr (init_coordinator\<lparr>receipt_line_key := Some ''abc''\<rparr>)
   \<and> data init_coordinator = None
   \<and> get_main_data ex_env_down (Some ''abc'') = Inl (Exn OtherError ''Connection timed out'')
   \<and> get_consumption_data ex_lib ex_env_down (Some ''abc'') = Inl (Exn OtherError ''Connection timed out'')
   \<and> async_update_data ex_cfg ex_lib ex_env_down init_coordinator =
       (init_coordinator\<lparr>receipt_line_key := Some ''abc''\<rparr>,
        Inl (Exn UpdateFailed ''Error communicating with API: Insufficient data received''))"
proof -
  have k: "receipt_line_key (init_coordinator\<lparr>receipt_line_key := Some ''abc''\<rparr>) = Some ''abc''"
    by simp
  have d: "data init_coordinator = None"
    by (simp add: init_coordinator_def initial_last_water_consumption_def)
  have w: "wrap_error insufficient =
      Exn UpdateFailed ''Error communicating with API: Insufficient data received''"
    by (simp add: wrap_error_def insufficient_def)
  show ?thesis
    using sufficiency_check [OF ex_down_ensure_auth]
      ex_down_ensure_auth ex_down_get_main_data ex_down_get_consumption_data d
    unfolding k w by blast
qed

section \<open>The handler of the cycle\<close>

lemma update_body_key:
  assumes "update_body cfg L E s = (s', res)" "\<not> needs_auth s"
  shows "receipt_line_key s' = receipt_line_key s"
  using assms(1)
proof (cases rule: update_body_cases)
  case (auth err)
  then show ?thesis by simp
next
  case (incr s1 d2 err)
  then show ?thesis
    using ensure_auth_frame(5) [OF incr(1) assms(2)] merge_fetches_eq(2) [OF incr(2)] by simp
next
  case (checked s1 s2 d2 d3)
  then show ?thesis
    using ensure_auth_frame(5) [OF checked(1) assms(2)] merge_fetches_eq(2) [OF checked(2)]
      increment_step_result(2) [OF checked(3)] by simp
qed

lemma ensure_auth_needed:
  "needs_auth s \<Longrightarrow>
   ensure_auth cfg L E s =
     (case authenticate cfg L E of
        Inl err \<Rightarrow> Inl err
      | Inr k \<Rightarrow> Inr (s\<lparr>receipt_line_key := Some k\<rparr>))"
  by (simp add: ensure_auth_def and_then_def)

section \<open>Three cycles of the example device\<close>

lemmas cycle_defs =
  refresh_def async_update_data_def update_body_def ensure_auth_def needs_auth_def
  merge_fetches_def main_step_def main_due_def interval_main_def existing_data_def
  consumption_step_def increment_step_def compute_increment_def sufficiency_def

lemmas extractor_defs =
  get_main_data_def main_item_def code_mapping_def key_str_def
  get_consumption_data_def tag_get_def parse_refresh_date_def refresh_date_value_def
  refresh_formats_def parse_date_def parse_lines_def parse_first_line_def dict_update_def

lemmas ex_defs =
  ex_cfg_def ex_lib_def ex_env_def ex_env2_def ex_env_down_def ex_summary_def ex_dataset_def
  ex_dataset2_def





section \<open>The snapshot across cycles\<close>

lemma main_step_last_main_update:
  assumes "main_step cfg E s d = (s', d')"
  shows "last_main_update s' =
           (if main_due cfg E s \<and> (\<exists>m. get_main_data E (receipt_line_key s) = Inr m)
            then loop_time_main E else last_main_update s)"
  using assms by (auto simp: main_step_def split: if_splits sum.splits)

lemma update_body_last_main_update:
  assumes "ensure_auth cfg L E s = Inr s1" "update_body cfg L E s = (s', res)"
  shows "last_main_update s' =
           (if main_due cfg E s1 \<and> (\<exists>m. get_main_data E (receipt_line_key s1) = Inr m)
            then loop_time_main E else last_main_update s)"
proof -
  obtain s2 d2 where m: "merge_fetches cfg L E s1 = (s2, d2)"
    by (cases "merge_fetches cfg L E s1")
  obtain sa da where ms: "main_step cfg E s1 (existing_data s1) = (sa, da)"
    by (cases "main_step cfg E s1 (existing_data s1)")
  with m have "s2 = sa" by (auto simp: merge_fetches_def)
  with main_step_last_main_update [OF ms] ensure_auth_frame(2) [OF assms(1)]
  have s2: "last_main_update s2 =
      (if main_due cfg E s1 \<and> (\<exists>m. get_main_data E (receipt_line_key s1) = Inr m)
       then loop_time_main E else last_main_update s)"
    by auto
  have "last_main_update s' = last_main_update s2"
  proof (cases "increment_step s2 d2")
    case (Inl err)
    with update_body_after_auth [OF assms(1) m] assms(2) show ?thesis by simp
  next
    case (Inr sd)
    obtain s3 d3 where sd: "sd = (s3, d3)" by (cases sd)
    with Inr update_body_after_auth [OF assms(1) m] assms(2) have "s' = s3" by simp
    with increment_step_result(3) [OF Inr [unfolded sd]] show ?thesis by simp
  qed
  with s2 show ?thesis by simp
qed

lemma async_update_data_last_main_update:
  "last_main_update (fst (async_update_data cfg L E s)) = last_main_update (fst (update_body cfg L E s))"
  by (cases "update_body cfg L E s") (auto simp: async_update_data_def split: sum.splits)

lemma refresh_last_main_update:
  "last_main_update (refresh cfg L E s) = last_main_update (fst (update_body cfg L E s))"
  by (cases "update_body cfg L E s")
    (auto simp: refresh_def async_update_data_def split: sum.splits)

lemma returned_snapshot:
  assumes "ensure_auth cfg L E s = Inr s1" "async_update_data cfg L E s = (s', Inr d)"
  shows "\<exists>s2 d2. merge_fetches cfg L E s1 = (s2, d2) \<and> increment_step s2 d2 = Inr (s', d)
           \<and> 3 \<le> length d"
proof -
  obtain s0 r0 where b: "update_body cfg L E s = (s0, r0)"
    by (cases "update_body cfg L E s")
  with assms(2) have r0: "r0 = Inr d" and s0: "s0 = s'"
    by (auto simp: async_update_data_def split: sum.splits)
  from b show ?thesis
  proof (cases rule: update_body_cases)
    case (checked t1 s2 d2 d3)
    with r0 have "d3 = d" "3 \<le> length d"
      by (auto simp: sufficiency_def split: if_splits)
    with checked assms(1) s0 show ?thesis by auto
  qed (use r0 in simp_all)
qed

lemma returned_lookup:
  assumes "ensure_auth cfg L E s = Inr s1" "async_update_data cfg L E s = (s', Inr d)"
  shows "k \<noteq> ''water_increment'' \<Longrightarrow>
           map_of d k =
             map_of (dict_update (dict_update (existing_data s) (main_updates cfg E s1))
                       (consumption_updates L E s1)) k"
    and "keys (existing_data s) \<subseteq> keys d"
    and "d \<noteq> []"
proof -
  from returned_snapshot [OF assms] obtain s2 d2 where
    m: "merge_fetches cfg L E s1 = (s2, d2)" and i: "increment_step s2 d2 = Inr (s', d)"
    and l: "3 \<le> length d"
    by blast
  note d2 = merge_fetches_eq(1) [OF m, unfolded ensure_auth_frame(4) [OF assms(1)]]
  show "k \<noteq> ''water_increment'' \<Longrightarrow>
           map_of d k =
             map_of (dict_update (dict_update (existing_data s) (main_updates cfg E s1))
                       (consumption_updates L E s1)) k"
    using increment_step_keys(3) [OF i] d2 by simp
  show "keys (existing_data s) \<subseteq> keys d"
    using increment_step_keys(1) [OF i] unfolding d2 keys_dict_update by blast
  from l show "d \<noteq> []" by auto
qed

section \<open>A cycle whose main fetch fails\<close>

lemma ex5_ensure_auth: "ensure_auth ex_cfg ex_lib ex_env_main_down ex_state5 = Inr ex_state5"
  by (simp add: ensure_auth_def needs_auth_def ex_state5_def)

lemma ex5_main_due: "main_due ex_cfg ex_env_main_down ex_state5"
  by (simp add: main_due_def interval_main_def ex_cfg_def ex_env_main_down_def ex_env_def
      ex_state5_def)

lemma ex5_get_main_data:
  "get_main_data ex_env_main_down (receipt_line_key ex_state5) =
     Inl (Exn OtherError ''Connection timed out'')"
  by (simp add: get_main_data_def ex_env_main_down_def ex_env_def)


lemma ex5_existing:
  "length (existing_data ex_state5) = 5" "3 \<le> length (existing_data ex_state5)"
  "water_ok (existing_data ex_state5)"
  by (simp_all add: existing_data_def ex_state5_def water_ok_def)


lemma main_failed_body:
  assumes "ensure_auth cfg L E s = Inr s1" "get_main_data E (receipt_line_key s1) = Inl e"
  shows "main_step cfg E s1 (existing_data s1) = (s1, existing_data s)"
    and "merge_fetches cfg L E s1 = (s1, consumption_step L E s1 (existing_data s))"
    and "update_body cfg L E s =
           (case increment_step s1 (consumption_step L E s1 (existing_data s)) of
              Inl err \<Rightarrow> (s1, Inl err)
            | Inr (s3, d3) \<Rightarrow> (s3, sufficiency d3))"
proof -
  show 1: "main_step cfg E s1 (existing_data s1) = (s1, existing_data s)"
    using assms(2) ensure_auth_frame(4) [OF assms(1)] by (simp add: main_step_def)
  then show 2: "merge_fetches cfg L E s1 = (s1, consumption_step L E s1 (existing_data s))"
    by (simp add: merge_fetches_def)
  show "update_body cfg L E s =
           (case increment_step s1 (consumption_step L E s1 (existing_data s)) of
              Inl err \<Rightarrow> (s1, Inl err)
            | Inr (s3, d3) \<Rightarrow> (s3, sufficiency d3))"
    by (rule update_body_after_auth [OF assms(1) 2])
qed

lemma enough_prior_succeeds:
  assumes "ensure_auth cfg L E s = Inr s1" "3 \<le> length (existing_data s)"
    "water_ok (existing_data s)"
  shows "\<exists>s' d. async_update_data cfg L E s = (s', Inr d)"
proof -
  obtain s2 d2 where m: "merge_fetches cfg L E s1 = (s2, d2)"
    by (cases "merge_fetches cfg L E s1")
  have ok: "water_ok d2"
    using merge_fetches_water_ok [OF m] assms(3) ensure_auth_frame(4) [OF assms(1)] by simp
  from increment_step_ok [OF ok, of s2] obtain s3 d3 where
    i: "increment_step s2 d2 = Inr (s3, d3)" by blast
  have "length (existing_data s) \<le> length d2"
    unfolding merge_fetches_eq(1) [OF m] ensure_auth_frame(4) [OF assms(1)]
    using length_dict_update le_trans by blast
  with assms(2) increment_step_keys(2) [OF i] have "3 \<le> length d3" by linarith
  with update_body_after_auth [OF assms(1) m] i
  have "update_body cfg L E s = (s3, Inr d3)" by (simp add: sufficiency_enough)
  then show ?thesis by (auto dest: async_update_data_Inr)
qed

lemma available_after_success:
  "async_update_data cfg L E s = (s', Inr d) \<Longrightarrow> available (refresh cfg L E s)"
  by (simp add: refresh_def available_def)

section \<open>The published snapshot accumulates\<close>






section \<open>The claims about the consumption extractor\<close>

lemma consumption_step_Nil: "consumption_updates L E s = [] \<Longrightarrow> consumption_step L E s d = d"
  by (simp add: consumption_step_updates)

text \<open>
  Claim C6. When the device page has no \<^verbatim>\<open>div[data-controller=live]\<close> the consumption
  fetch raises \<^verbatim>\<open>UpdateFailed("Live div not found")\<close>, and the cycle merges nothing from
  it. When the live div is there, its properties parse, and the returned fragment has no
  \<^verbatim>\<open>div#graph_device\<close>, the fetch returns the empty dict without raising, and the
  merged snapshot of the cycle is the previous snapshot updated with the main data only.
\<close>

theorem live_div_fatal_graph_div_benign:
  "(get_device E (key_str (receipt_line_key s)) = Inr None \<longrightarrow>
      get_consumption_data L E (receipt_line_key s) = Inl (Exn UpdateFailed ''Live div not found'')
      \<and> consumption_step L E s d = d)
   \<and> (get_device E (key_str (receipt_line_key s)) = Inr (Some live)
        \<and> json_loads L (unescape L (tag_get live ''data-live-props-value'' [])) = Inr props
        \<and> post_load_conso E
             (JObj [(''props'', props), (''updated'', JObj []), (''args'', JObj [])]) = Inr None \<longrightarrow>
        get_consumption_data L E (receipt_line_key s) = Inr []
        \<and> consumption_step L E s d = d
        \<and> snd (merge_fetches cfg L E s) = dict_update (existing_data s) (main_updates cfg E s))"
proof (intro conjI impI)
  assume "get_device E (key_str (receipt_line_key s)) = Inr None"
  then show f: "get_consumption_data L E (receipt_line_key s) =
      Inl (Exn UpdateFailed ''Live div not found'')"
    by (simp add: get_consumption_data_def)
  then show "consumption_step L E s d = d"
    by (simp add: consumption_step_def)
next
  assume h: "get_device E (key_str (receipt_line_key s)) = Inr (Some live)
        \<and> json_loads L (unescape L (tag_get live ''data-live-props-value'' [])) = Inr props
        \<and> post_load_conso E
             (JObj [(''props'', props), (''updated'', JObj []), (''args'', JObj [])]) = Inr None"
  then show r: "get_consumption_data L E (receipt_line_key s) = Inr []"
    by (simp add: get_consumption_data_def)
  then have cu: "consumption_updates L E s = []"
    by (simp add: consumption_updates_def)
  then show "consumption_step L E s d = d"
    by (rule consumption_step_Nil)
  obtain s' d' where m: "merge_fetches cfg L E s = (s', d')"
    by (cases "merge_fetches cfg L E s")
  show "snd (merge_fetches cfg L E s) = dict_update (existing_data s) (main_updates cfg E s)"
    using merge_fetches_eq(1) [OF m] m cu by simp
qed

theorem live_div_fatal_graph_div_benign_witness:
  "get_device (ex_env\<lparr>get_device := (\<lambda>k. Inr None)\<rparr>) (key_str (receipt_line_key ex_state5))
     = Inr None
   \<and> get_consumption_data ex_lib (ex_env\<lparr>get_device := (\<lambda>k. Inr None)\<rparr>)
       (receipt_line_key ex_state5) = Inl (Exn UpdateFailed ''Live div not found'')
   \<and> get_device (ex_env\<lparr>post_load_conso := (\<lambda>p. Inr None)\<rparr>) (key_str (receipt_line_key ex_state5))
       = Inr (Some [(''data-controller'', ''live''), (''data-live-props-value'', ''{}'')])
   \<and> json_loads ex_lib (unescape ex_lib
         (tag_get [(''data-controller'', ''live''), (''data-live-props-value'', ''{}'')]
            ''data-live-props-value'' [])) = Inr (JObj [])
   \<and> get_consumption_data ex_lib (ex_env\<lparr>post_load_conso := (\<lambda>p. Inr None)\<rparr>)
       (receipt_line_key ex_state5) = Inr []"
proof -
  have 1: "get_device (ex_env\<lparr>get_device := (\<lambda>k. Inr None)\<rparr>)
      (key_str (receipt_line_key ex_state5)) = Inr None"
    by simp
  have 2: "get_device (ex_env\<lparr>post_load_conso := (\<lambda>p. Inr None)\<rparr>)
      (key_str (receipt_line_key ex_state5))
       = Inr (Some [(''data-controller'', ''live''), (''data-live-props-value'', ''{}'')])"
    by (simp add: ex_env_def)
  have 3: "json_loads ex_lib (unescape ex_lib
         (tag_get [(''data-controller'', ''live''), (''data-live-props-value'', ''{}'')]
            ''data-live-props-value'' [])) = Inr (JObj [])"
    by (simp add: ex_lib_def tag_get_def)
  have 4: "post_load_conso (ex_env\<lparr>post_load_conso := (\<lambda>p. Inr None)\<rparr>)
      (JObj [(''props'', JObj []), (''updated'', JObj []), (''args'', JObj [])]) = Inr None"
    by simp
  show ?thesis
    using live_div_fatal_graph_div_benign
        [of "ex_env\<lparr>get_device := (\<lambda>k. Inr None)\<rparr>" ex_state5 ex_lib]
      live_div_fatal_graph_div_benign
        [of "ex_env\<lparr>post_load_conso := (\<lambda>p. Inr None)\<rparr>" ex_state5 ex_lib _
          "[(''data-controller'', ''live''), (''data-live-props-value'', ''{}'')]" "JObj []"]
      1 2 3 4
    by blast
qed

section \<open>An unparseable refresh date\<close>

lemma refresh_loop_all_fail:
  "\<forall>fmt\<in>set fmts. \<exists>e. parse_date L v fmt = Inl e \<and> cls_of e = ValueError \<Longrightarrow>
   refresh_loop L v fmts = Inr None"
  by (induction fmts) auto

lemma parse_first_line_refresh_date:
  assumes "parse_first_line L spr fl r = Inr r'"
  shows "map_of r' ''refresh_date'' = map_of r ''refresh_date''"
proof -
  from assms obtain u where r': "r' = dict_update r u"
    and u: "keys u = {''last_date'', ''regen_count'', ''power_outage'', ''water_consumption'',
      ''salt_alarm'', ''salt_consumption'', ''last_update''}"
    by (auto simp: parse_first_line_def and_then_eq_Inr keys_Cons keys_Nil)
  show ?thesis
    unfolding r' by (rule map_of_dict_update_other) (simp add: u)
qed

lemma parse_lines_refresh_date:
  "parse_lines L spr dj r = Inr r' \<Longrightarrow> map_of r' ''refresh_date'' = map_of r ''refresh_date''"
  by (auto simp: parse_lines_def and_then_eq_Inr parse_first_line_refresh_date split: if_splits)

text \<open>
  Claim C3. Take a consumption payload that reaches the parsing of the dataset, whose
  \<^verbatim>\<open>refreshDate\<close> is a string for which \<^verbatim>\<open>strptime\<close> raises \<open>ValueError\<close>
  under each of the four formats. The refresh-date step raises nothing and records the
  field as absent: it stores \<^verbatim>\<open>None\<close> under \<^verbatim>\<open>refresh_date\<close> (for the empty string,
  which Python takes as false, it stores nothing). The fetch goes on with the parsing of
  the lines exactly as it would otherwise, no result it returns has a date under
  \<^verbatim>\<open>refresh_date\<close>, and it returns when the dataset has no lines.
\<close>

theorem unparseable_refresh_date:
  assumes "get_device E (key_str key) = Inr (Some live)"
    and "json_loads L (unescape L (tag_get live ''data-live-props-value'' [])) = Inr props"
    and "post_load_conso E
           (JObj [(''props'', props), (''updated'', JObj []), (''args'', JObj [])]) = Inr (Some graph)"
    and "json_loads L (unescape L (tag_get graph ''data-chart-dataset-value'' ''{}'')) = Inr (JObj kvs)"
    and "int_of_str L (tag_get graph ''data-chart-salt-value'' ''0'') = Inr spr"
    and "map_of kvs ''refreshDate'' = Some (JStr str)"
    and "\<forall>fmt\<in>set refresh_formats. \<exists>msg. strptime L str fmt = Inl (Exn ValueError msg)"
    and "recorded =
           (if str = [] then [(''salt_per_regen'', J (JInt spr))]
            else [(''salt_per_regen'', J (JInt spr)), (''refresh_date'', J JNull)])"
  shows "parse_refresh_date L (JObj kvs) [(''salt_per_regen'', J (JInt spr))] = Inr recorded
         \<and> get_consumption_data L E key = parse_lines L spr (JObj kvs) recorded
         \<and> (\<forall>r. get_consumption_data L E key = Inr r \<longrightarrow>
               map_of r ''refresh_date'' = (if str = [] then None else Some (J JNull)))
         \<and> (map_of kvs ''lines'' = None \<longrightarrow> get_consumption_data L E key = Inr recorded)"
proof -
  have "\<forall>fmt\<in>set refresh_formats.
      \<exists>e. parse_date L (JStr str) fmt = Inl e \<and> cls_of e = ValueError"
    using assms(7) by (auto simp: parse_date_def)
  then have "refresh_loop L (JStr str) refresh_formats = Inr None"
    by (rule refresh_loop_all_fail)
  then have v: "refresh_date_value L (JStr str) = J JNull"
    by (simp add: refresh_date_value_def)
  have 1: "parse_refresh_date L (JObj kvs) [(''salt_per_regen'', J (JInt spr))] = Inr recorded"
    using assms(6,8) v by (simp add: parse_refresh_date_def)
  have 2: "get_consumption_data L E key = parse_lines L spr (JObj kvs) recorded"
    using assms(1-5) 1 by (simp add: get_consumption_data_def)
  have 3: "map_of r ''refresh_date'' = (if str = [] then None else Some (J JNull))"
    if "get_consumption_data L E key = Inr r" for r
    using parse_lines_refresh_date [of L spr "JObj kvs" recorded r] that 2 assms(8) by simp
  have 4: "get_consumption_data L E key = Inr recorded" if "map_of kvs ''lines'' = None"
    using that 2 by (simp add: parse_lines_def)
  show ?thesis using 1 2 3 4 by blast
qed

lemma ex_unparseable:
  "\<forall>fmt\<in>set refresh_formats. \<exists>msg. strptime ex_lib ''27/11/2025 21:54'' fmt = Inl (Exn ValueError msg)"
  by (simp add: refresh_formats_def ex_lib_def)

theorem unparseable_refresh_date_witness:
  "get_device ex_env (key_str (Some ''abc'')) =
     Inr (Some [(''data-controller'', ''live''), (''data-live-props-value'', ''{}'')])
   \<and> list_all (\<lambda>fmt. cls_of (projl (strptime ex_lib ''27/11/2025 21:54'' fmt)) = ValueError
                      \<and> isl (strptime ex_lib ''27/11/2025 21:54'' fmt)) refresh_formats
   \<and> get_consumption_data ex_lib ex_env (Some ''abc'') =
       Inr [(''salt_per_regen'', J (JInt 25)), (''refresh_date'', J JNull),
            (''last_date'', J (JStr ''2025-11-27'')), (''regen_count'', J (JInt 2)),
            (''power_outage'', J (JBool False)), (''water_consumption'', J (JInt 140)),
            (''salt_alarm'', J (JBool False)), (''salt_consumption'', J (JInt 50)),
            (''last_update'', Time (Datetime 2025 11 27 0 0 0 0))]
   \<and> map_of [(''salt_per_regen'', J (JInt 25)), (''refresh_date'', J JNull),
            (''last_date'', J (JStr ''2025-11-27'')), (''regen_count'', J (JInt 2)),
            (''power_outage'', J (JBool False)), (''water_consumption'', J (JInt 140)),
            (''salt_alarm'', J (JBool False)), (''salt_consumption'', J (JInt 50)),
            (''last_update'', Time (Datetime 2025 11 27 0 0 0 0))] ''refresh_date''
       = Some (J JNull)"
proof -
  have 1: "get_device ex_env (key_str (Some ''abc'')) =
     Inr (Some [(''data-controller'', ''live''), (''data-live-props-value'', ''{}'')])"
    by (simp add: ex_env_def)
  have 2: "json_loads ex_lib (unescape ex_lib
         (tag_get [(''data-controller'', ''live''), (''data-live-props-value'', ''{}'')]
            ''data-live-props-value'' [])) = Inr (JObj [])"
    by (simp add: ex_lib_def tag_get_def)
  have 3: "post_load_conso ex_env
      (JObj [(''props'', JObj []), (''updated'', JObj []), (''args'', JObj [])]) =
      Inr (Some [(''id'', ''graph_device''), (''data-chart-dataset-value'', ''dataset''),
                 (''data-chart-salt-value'', ''25'')])"
    by (simp add: ex_env_def)
  have 4: "json_loads ex_lib (unescape ex_lib
      (tag_get [(''id'', ''graph_device''), (''data-chart-dataset-value'', ''dataset''),
                 (''data-chart-salt-value'', ''25'')] ''data-chart-dataset-value'' ''{}'')) =
      Inr (JObj [(''refreshDate'', JStr ''27/11/2025 21:54''),
           (''lines'',
              JList [JList [JStr ''2025-11-27'', JInt 2, JBool False, JInt 140, JBool False]])])"
    by (simp add: ex_lib_def tag_get_def ex_dataset_def)
  have 5: "int_of_str ex_lib
      (tag_get [(''id'', ''graph_device''), (''data-chart-dataset-value'', ''dataset''),
                 (''data-chart-salt-value'', ''25'')] ''data-chart-salt-value'' ''0'') = Inr 25"
    by (simp add: ex_lib_def tag_get_def)
  have 6: "map_of [(''refreshDate'', JStr ''27/11/2025 21:54''),
           (''lines'',
              JList [JList [JStr ''2025-11-27'', JInt 2, JBool False, JInt 140, JBool False]])]
      ''refreshDate'' = Some (JStr ''27/11/2025 21:54'')"
    by simp
  have l: "list_all (\<lambda>fmt. cls_of (projl (strptime ex_lib ''27/11/2025 21:54'' fmt)) = ValueError
                      \<and> isl (strptime ex_lib ''27/11/2025 21:54'' fmt)) refresh_formats"
    by (simp add: refresh_formats_def ex_lib_def)
  from unparseable_refresh_date [OF 1 2 3 4 5 6 ex_unparseable refl]
  have "\<forall>r. get_consumption_data ex_lib ex_env (Some ''abc'') = Inr r \<longrightarrow>
      map_of r ''refresh_date'' = Some (J JNull)"
    by simp
  with ex_get_consumption_data 1 l show ?thesis by simp
qed

section \<open>The counter inside the cycle\<close>

text \<open>
  The increment step of a cycle runs the counter on the cumulative value of the merged
  snapshot, stores the increment under \<^verbatim>\<open>water_increment\<close> and the value as the new
  baseline.
\<close>

lemma increment_step_counter:
  "map_of d ''water_consumption'' = Some (J (JInt current)) \<Longrightarrow>
   increment_step s d =
     Inr (s\<lparr>last_water_consumption := current\<rparr>,
          AList.update ''water_increment''
            (J (JInt (fst (compute_increment (last_water_consumption s) current)))) d)"
  by (simp add: increment_step_def compute_increment_snd)

lemma increment_step_absent:
  "map_of d ''water_consumption'' = None \<Longrightarrow> increment_step s d = Inr (s, d)"
  by (simp add: increment_step_def)

section \<open>The claim about a failing main fetch\<close>

lemma not_available_after_failure:
  "async_update_data cfg L E s = (s', Inl err) \<Longrightarrow> \<not> available (refresh cfg L E s)"
  by (simp add: refresh_def available_def)

text \<open>
  Claim C9, amended. In a cycle that gets past authentication, when the main fetch is due
  and raises: the main step changes neither the coordinator nor the snapshot, the cycle
  goes on with the consumption fetch, the increment and the check on the previous snapshot
  alone, and \<^verbatim>\<open>_last_main_update\<close> keeps its value. The cycle then succeeds, and the
  entities are available, exactly when the previous snapshot with the consumption data and
  the increment has at least 3 fields; with fewer it fails with the insufficient-data
  error. A previous snapshot of at least 3 fields is enough, and every previous field that
  the consumption data does not bring (other than the increment) keeps its value. In any
  cycle that gets past authentication, \<^verbatim>\<open>_last_main_update\<close> changes only if the main
  fetch was due and returned.
\<close>

theorem main_failure_continues:
  assumes "ensure_auth cfg L E s = Inr s1"
  shows "(main_due cfg E s1 \<and> get_main_data E (receipt_line_key s1) = Inl e \<longrightarrow>
            main_step cfg E s1 (existing_data s1) = (s1, existing_data s)
            \<and> main_updates cfg E s1 = []
            \<and> update_body cfg L E s =
                (case increment_step s1 (consumption_step L E s1 (existing_data s)) of
                   Inl err \<Rightarrow> (s1, Inl err)
                 | Inr (s3, d3) \<Rightarrow> (s3, sufficiency d3))
            \<and> last_main_update (fst (async_update_data cfg L E s)) = last_main_update s
            \<and> last_main_update (refresh cfg L E s) = last_main_update s
            \<and> (\<forall>s3 d3.
                  increment_step s1 (consumption_step L E s1 (existing_data s)) = Inr (s3, d3) \<longrightarrow>
                    (3 \<le> length d3 \<longrightarrow>
                       async_update_data cfg L E s = (s3, Inr d3)
                       \<and> available (refresh cfg L E s))
                    \<and> (length d3 < 3 \<longrightarrow>
                       async_update_data cfg L E s = (s3, Inl (wrap_error insufficient))
                       \<and> \<not> available (refresh cfg L E s)))
            \<and> (3 \<le> length (existing_data s) \<and> water_ok (existing_data s) \<longrightarrow>
                 available (refresh cfg L E s)
                 \<and> (\<forall>k. k \<noteq> ''water_increment'' \<and> k \<notin> keys (consumption_updates L E s1) \<longrightarrow>
                      map_of (existing_data (refresh cfg L E s)) k = map_of (existing_data s) k)))
         \<and> (last_main_update (fst (async_update_data cfg L E s)) \<noteq> last_main_update s \<longrightarrow>
              main_due cfg E s1 \<and> (\<exists>m. get_main_data E (receipt_line_key s1) = Inr m))"
proof -
  obtain s0 r0 where b: "update_body cfg L E s = (s0, r0)"
    by (cases "update_body cfg L E s")
  note lm = update_body_last_main_update [OF assms b]
  have lm_async: "last_main_update (fst (async_update_data cfg L E s)) = last_main_update s0"
    and lm_refresh: "last_main_update (refresh cfg L E s) = last_main_update s0"
    using async_update_data_last_main_update [of cfg L E s]
      refresh_last_main_update [of cfg L E s] b by simp_all
  have only: "last_main_update (fst (async_update_data cfg L E s)) \<noteq> last_main_update s \<longrightarrow>
      main_due cfg E s1 \<and> (\<exists>m. get_main_data E (receipt_line_key s1) = Inr m)"
    unfolding lm_async lm by (simp split: if_splits)
  have failing: "main_step cfg E s1 (existing_data s1) = (s1, existing_data s)
      \<and> main_updates cfg E s1 = []
      \<and> update_body cfg L E s =
          (case increment_step s1 (consumption_step L E s1 (existing_data s)) of
             Inl err \<Rightarrow> (s1, Inl err)
           | Inr (s3, d3) \<Rightarrow> (s3, sufficiency d3))
      \<and> last_main_update (fst (async_update_data cfg L E s)) = last_main_update s
      \<and> last_main_update (refresh cfg L E s) = last_main_update s
      \<and> (\<forall>s3 d3.
            increment_step s1 (consumption_step L E s1 (existing_data s)) = Inr (s3, d3) \<longrightarrow>
              (3 \<le> length d3 \<longrightarrow>
                 async_update_data cfg L E s = (s3, Inr d3)
                 \<and> available (refresh cfg L E s))
              \<and> (length d3 < 3 \<longrightarrow>
                 async_update_data cfg L E s = (s3, Inl (wrap_error insufficient))
                 \<and> \<not> available (refresh cfg L E s)))
      \<and> (3 \<le> length (existing_data s) \<and> water_ok (existing_data s) \<longrightarrow>
           available (refresh cfg L E s)
           \<and> (\<forall>k. k \<noteq> ''water_increment'' \<and> k \<notin> keys (consumption_updates L E s1) \<longrightarrow>
                map_of (existing_data (refresh cfg L E s)) k = map_of (existing_data s) k))"
    if f: "get_main_data E (receipt_line_key s1) = Inl e"
  proof -
    have mu: "main_updates cfg E s1 = []"
      using f by (simp add: main_updates_def)
    have keep: "last_main_update s0 = last_main_update s"
      unfolding lm using f by simp
    note body = main_failed_body(3) [OF assms f]
    have check: "(3 \<le> length d3 \<longrightarrow>
           async_update_data cfg L E s = (s3, Inr d3) \<and> available (refresh cfg L E s))
        \<and> (length d3 < 3 \<longrightarrow>
           async_update_data cfg L E s = (s3, Inl (wrap_error insufficient))
           \<and> \<not> available (refresh cfg L E s))"
      if i: "increment_step s1 (consumption_step L E s1 (existing_data s)) = Inr (s3, d3)"
      for s3 d3
    proof (intro conjI impI)
      assume "3 \<le> length d3"
      with body i have "update_body cfg L E s = (s3, Inr d3)"
        by (simp add: sufficiency_enough)
      then show a: "async_update_data cfg L E s = (s3, Inr d3)"
        by (rule async_update_data_Inr)
      show "available (refresh cfg L E s)"
        by (rule available_after_success [OF a])
    next
      assume "length d3 < 3"
      with body i have "update_body cfg L E s = (s3, Inl insufficient)"
        by (simp add: sufficiency_short)
      from async_update_data_Inl [OF this]
      show a: "async_update_data cfg L E s = (s3, Inl (wrap_error insufficient))"
        by (simp add: insufficient_no_marker)
      show "\<not> available (refresh cfg L E s)"
        by (rule not_available_after_failure [OF a])
    qed
    have prior: "available (refresh cfg L E s)
        \<and> (\<forall>k. k \<noteq> ''water_increment'' \<and> k \<notin> keys (consumption_updates L E s1) \<longrightarrow>
             map_of (existing_data (refresh cfg L E s)) k = map_of (existing_data s) k)"
      if p: "3 \<le> length (existing_data s)" "water_ok (existing_data s)"
    proof -
      from enough_prior_succeeds [OF assms p] obtain s' d where
        a: "async_update_data cfg L E s = (s', Inr d)" by blast
      have pub: "existing_data (refresh cfg L E s) = d"
        using refresh_Inr [OF a] by (simp add: existing_data_def)
      show ?thesis
        unfolding pub
        using available_after_success [OF a] returned_lookup(1) [OF assms a]
        by (simp add: mu map_of_dict_update_other)
    qed
    show ?thesis
      using main_failed_body(1) [OF assms f] body mu keep lm_async lm_refresh prior check
      by simp
  qed
  show ?thesis using failing only by blast
qed

theorem main_failure_continues_witness:
  "ensure_auth ex_cfg ex_lib ex_env_main_down ex_state5 = Inr ex_state5
   \<and> main_due ex_cfg ex_env_main_down ex_state5
   \<and> get_main_data ex_env_main_down (receipt_line_key ex_state5) =
       Inl (Exn OtherError ''Connection timed out'')
   \<and> 3 \<le> length (existing_data ex_state5) \<and> water_ok (existing_data ex_state5)
   \<and> last_main_update (refresh ex_cfg ex_lib ex_env_main_down ex_state5) = last_main_update ex_state5
   \<and> available (refresh ex_cfg ex_lib ex_env_main_down ex_state5)"
  using main_failure_continues [OF ex5_ensure_auth]
    ex5_ensure_auth ex5_main_due ex5_get_main_data ex5_existing(2,3)
  by blast

text \<open>
  Claim C9 as stated fails before the first publication. On the first cycle, with a
  fragment that has no graph div, the cycle succeeds when the main fetch returns. When the
  main fetch raises instead, the merged snapshot is empty, the cycle fails with the
  insufficient-data error and the entities are unavailable: there the failure of the main
  fetch decides the availability.
\<close>

theorem main_failure_counterexample:
  "available (refresh ex_cfg ex_lib ex_env_no_graph init_coordinator)
   \<and> main_due ex_cfg ex_env_no_graph_main_down (init_coordinator\<lparr>receipt_line_key := Some ''abc''\<rparr>)
   \<and> get_main_data ex_env_no_graph_main_down (Some ''abc'') =
       Inl (Exn OtherError ''Connection timed out'')
   \<and> get_consumption_data ex_lib ex_env_no_graph_main_down (Some ''abc'') = Inr []
   \<and> snd (async_update_data ex_cfg ex_lib ex_env_no_graph_main_down init_coordinator) =
       Inl (Exn UpdateFailed ''Error communicating with API: Insufficient data received'')
   \<and> \<not> available (refresh ex_cfg ex_lib ex_env_no_graph_main_down init_coordinator)"
  by (simp add: cycle_defs authenticate_def extractor_defs ex_defs init_coordinator_def
      initial_last_water_consumption_def ex_env_no_graph_def ex_env_no_graph_main_down_def
      available_def auth_marker_def wrap_error_def insufficient_def)

section \<open>The claim about authentication errors\<close>

lemma ensure_auth_held: "\<not> needs_auth s \<Longrightarrow> ensure_auth cfg L E s = Inr s"
  by (simp add: ensure_auth_def)

text \<open>
  An exception whose text holds the marker leaves the \<^verbatim>\<open>try\<close> block only when it comes
  from \<^verbatim>\<open>_authenticate\<close>, in a cycle that starts without a token.
\<close>

lemma marker_only_without_token:
  assumes "update_body cfg L E s = (s', Inl err)" "auth_marker err"
  shows "needs_auth s" and "s' = s" and "ensure_auth cfg L E s = Inl err"
proof -
  from assms(1) have "needs_auth s \<and> s' = s \<and> ensure_auth cfg L E s = Inl err"
  proof (cases rule: update_body_cases)
    case (auth e)
    then have "ensure_auth cfg L E s = Inl err" "s' = s" by simp_all
    moreover from this have "needs_auth s"
      using ensure_auth_held [of s cfg L E] by auto
    ultimately show ?thesis by simp
  next
    case (incr s1 d2 e)
    with increment_step_err [OF incr(3)] assms(2) show ?thesis by simp
  next
    case (checked s1 s2 d2 d3)
    then have "err = insufficient"
      by (simp add: sufficiency_def split: if_splits)
    with insufficient_no_marker assms(2) show ?thesis by simp
  qed
  then show "needs_auth s" and "s' = s" and "ensure_auth cfg L E s = Inl err"
    by simp_all
qed

text \<open>A token that is held is left as it is by every cycle, whatever the requests raise.\<close>

lemma held_token_kept:
  assumes "\<not> needs_auth s"
  shows "receipt_line_key (refresh cfg L E s) = receipt_line_key s"
proof -
  obtain s' res where b: "update_body cfg L E s = (s', res)"
    by (cases "update_body cfg L E s")
  note k = update_body_key [OF b assms]
  show ?thesis
  proof (cases res)
    case (Inl err)
    with b have bl: "update_body cfg L E s = (s', Inl err)" by simp
    have "\<not> auth_marker err"
      using marker_only_without_token(1) [OF bl] assms by blast
    with refresh_Inl [OF async_update_data_Inl [OF bl]] k show ?thesis by simp
  next
    case (Inr d)
    with b have "update_body cfg L E s = (s', Inr d)" by simp
    from refresh_Inr [OF async_update_data_Inr [OF this]] k show ?thesis by simp
  qed
qed


end
